theory Spec2Isabelle
  imports Complex_Main "HOL-Library.Word"
begin

section \<open>The raymarching front end of torch-ngp, as HOL functions\<close>

text \<open>
  The file \<^verbatim>\<open>raymarching/raymarching.py\<close> wraps the kernels of a compiled
  extension (\<^verbatim>\<open>_backend\<close>) into autograd functions. The Python of each wrapper is
  translated below. The kernels themselves are not part of the Python source. Where a
  property holds for every kernel, the wrapper takes its kernel as a parameter, and the
  kernel says which stores it performs on the buffers it is handed. Where a property is
  about what a kernel computes, the kernel is modelled from the specification, and its
  definition says so.
\<close>

subsection \<open>Errors, slices and allocation\<close>

text \<open>The exceptions the Python can raise: a raise is the value \<open>Inl e\<close>.\<close>

datatype torch_error = RuntimeError | IndexError | EinopsError

definition seq :: "torch_error + 'a \<Rightarrow> ('a \<Rightarrow> torch_error + 'b) \<Rightarrow> torch_error + 'b" where
  "seq m f = (case m of Inl e \<Rightarrow> Inl e | Inr x \<Rightarrow> f x)"

text \<open>
  A bound of a Python slice with step 1 on a sequence of length \<open>n\<close>: a negative bound
  counts from the end, and the result is clamped to \<open>0..n\<close>.
\<close>

definition py_slice_index :: "int \<Rightarrow> nat \<Rightarrow> nat" where
  "py_slice_index i n = (if i < 0 then nat (int n + i) else min (nat i) n)"

text \<open>\<^verbatim>\<open>xs[start:stop]\<close>; \<open>None\<close> is an omitted bound.\<close>

definition py_slice :: "int option \<Rightarrow> int option \<Rightarrow> 'a list \<Rightarrow> 'a list" where
  "py_slice start stop xs =
     (let n = length xs;
          a = (case start of None \<Rightarrow> 0 | Some i \<Rightarrow> py_slice_index i n);
          b = (case stop of None \<Rightarrow> n | Some j \<Rightarrow> py_slice_index j n)
      in take (b - a) (drop a xs))"

text \<open>
  \<^verbatim>\<open>torch.zeros(m, c)\<close>: \<open>m\<close> rows of \<open>c\<close> zeros; a negative row count raises.
\<close>

definition torch_zeros :: "int \<Rightarrow> nat \<Rightarrow> torch_error + ('f::zero) list list" where
  "torch_zeros m c = (if m < 0 then Inl RuntimeError else Inr (replicate (nat m) (replicate c 0)))"

text \<open>
  \<^verbatim>\<open>torch.empty(n, c)\<close>: the contents are whatever the memory holds, given here as a
  function of the position.
\<close>

definition torch_empty :: "(nat \<Rightarrow> nat \<Rightarrow> 'a) \<Rightarrow> nat \<Rightarrow> nat \<Rightarrow> 'a list list" where
  "torch_empty mem n c = map (\<lambda>i. map (mem i) [0..<c]) [0..<n]"

text \<open>
  A kernel writes into the buffers it is handed. Its effect on one buffer is the list of
  its stores (row index, new row), performed in order. A store past the end of the buffer
  is undefined behaviour of the kernel; here it is dropped.
\<close>

definition apply_stores :: "(nat \<times> 'a) list \<Rightarrow> 'a list \<Rightarrow> 'a list" where
  "apply_stores ws buf = foldl (\<lambda>b w. b[fst w := snd w]) buf ws"

subsection \<open>\<^verbatim>\<open>_march_rays_train.forward\<close>\<close>

record 'f march_train_input =
  in_rays_o :: "'f list list"
  in_rays_d :: "'f list list"
  in_bound :: 'f
  in_density_bitfield :: "8 word list"
  in_C :: int
  in_H :: int
  in_nears :: "'f list"
  in_fars :: "'f list"
  in_step_counter :: "int list option"
  in_mean_count :: int
  in_perturb :: bool
  in_align :: int
  in_force_all_rays :: bool
  in_dt_gamma :: 'f
  in_max_steps :: int

text \<open>What \<^verbatim>\<open>_backend.march_rays_train\<close> is called with (lines 339-342).\<close>

record 'f march_train_call =
  k_rays_o :: "'f list list"
  k_rays_d :: "'f list list"
  k_density_bitfield :: "8 word list"
  k_bound :: 'f
  k_dt_gamma :: 'f
  k_max_steps :: int
  k_N :: nat
  k_C :: int
  k_H :: int
  k_M :: int
  k_nears :: "'f list"
  k_fars :: "'f list"
  k_xyzs :: "'f list list"
  k_dirs :: "'f list list"
  k_deltas :: "'f list list"
  k_ts :: "'f list list"
  k_rays :: "int list list"
  k_step_counter :: "int list"
  k_perturb :: bool

text \<open>The stores of one run of the kernel, per buffer.\<close>

record 'f march_train_stores =
  st_xyzs :: "(nat \<times> 'f list) list"
  st_dirs :: "(nat \<times> 'f list) list"
  st_deltas :: "(nat \<times> 'f list) list"
  st_ts :: "(nat \<times> 'f list) list"
  st_rays :: "(nat \<times> int list) list"
  st_step_counter :: "(nat \<times> int) list"

text \<open>
  What the caller sees after the call: the four returned tensors, the tensors saved for
  the backward pass, and the step counter (updated in place).
\<close>

record 'f march_train_result =
  r_xyzs :: "'f list list"
  r_dirs :: "'f list list"
  r_deltas :: "'f list list"
  r_rays :: "int list list"
  r_saved_rays :: "int list list"
  r_saved_ts :: "'f list list"
  r_step_counter :: "int list"

text \<open>
  Lines 317-325: the capacity \<open>M\<close> and the (possibly increased) \<open>mean_count\<close>.
  Python's \<^verbatim>\<open>%\<close> rounds towards minus infinity, as \<open>mod\<close> on \<open>int\<close> does.
\<close>

definition march_rays_train_capacity :: "nat \<Rightarrow> int \<Rightarrow> bool \<Rightarrow> int \<Rightarrow> int \<Rightarrow> int \<times> int" where
  "march_rays_train_capacity N max_steps force_all_rays mean_count align =
     (let M = int N * max_steps in
      if \<not> force_all_rays \<and> mean_count > 0 then
        (let mean_count' =
               (if align > 0 then mean_count + (align - mean_count mod align) else mean_count)
         in (mean_count', mean_count'))
      else (M, mean_count))"

text \<open>
  Lines 317-337: everything up to the kernel call. The rays are taken after
  \<^verbatim>\<open>view(-1, 3)\<close>, as a list of rows. The four \<^verbatim>\<open>torch.zeros\<close> calls share the row
  count \<open>M\<close>, so the first of them raises when \<open>M\<close> is negative.
\<close>

definition march_rays_train_alloc ::
  "(nat \<Rightarrow> nat \<Rightarrow> int) \<Rightarrow> ('f::zero) march_train_input \<Rightarrow> torch_error + ('f march_train_call \<times> int)" where
  "march_rays_train_alloc mem inp =
     (let N = length (in_rays_o inp);
          (M, mean_count) = march_rays_train_capacity N (in_max_steps inp)
             (in_force_all_rays inp) (in_mean_count inp) (in_align inp)
      in seq (torch_zeros M 3) (\<lambda>xyzs.
         seq (torch_zeros M 3) (\<lambda>dirs.
         seq (torch_zeros M 2) (\<lambda>deltas.
         seq (torch_zeros M 1) (\<lambda>ts.
         let rays = torch_empty mem N 3;
             step_counter = (case in_step_counter inp of None \<Rightarrow> [0, 0] | Some sc \<Rightarrow> sc)
         in Inr (\<lparr> k_rays_o = in_rays_o inp, k_rays_d = in_rays_d inp,
                   k_density_bitfield = in_density_bitfield inp, k_bound = in_bound inp,
                   k_dt_gamma = in_dt_gamma inp, k_max_steps = in_max_steps inp,
                   k_N = N, k_C = in_C inp, k_H = in_H inp, k_M = M,
                   k_nears = in_nears inp, k_fars = in_fars inp,
                   k_xyzs = xyzs, k_dirs = dirs, k_deltas = deltas, k_ts = ts,
                   k_rays = rays, k_step_counter = step_counter,
                   k_perturb = in_perturb inp \<rparr>, mean_count))))))"

text \<open>
  Lines 339-357: the kernel runs on the buffers, then the outputs are cut to the first
  \<open>m\<close> rows on the path that did not use \<open>mean_count\<close>. \<^verbatim>\<open>step_counter[0]\<close> raises on an
  empty counter.
\<close>

definition march_rays_train_forward ::
  "(('f::zero) march_train_call \<Rightarrow> 'f march_train_stores) \<Rightarrow> (nat \<Rightarrow> nat \<Rightarrow> int) \<Rightarrow>
   'f march_train_input \<Rightarrow> torch_error + 'f march_train_result" where
  "march_rays_train_forward kern mem inp =
     seq (march_rays_train_alloc mem inp) (\<lambda>(call, mean_count).
       let st = kern call;
           xyzs = apply_stores (st_xyzs st) (k_xyzs call);
           dirs = apply_stores (st_dirs st) (k_dirs call);
           deltas = apply_stores (st_deltas st) (k_deltas call);
           ts = apply_stores (st_ts st) (k_ts call);
           rays = apply_stores (st_rays st) (k_rays call);
           step_counter = apply_stores (st_step_counter st) (k_step_counter call)
       in if in_force_all_rays inp \<or> mean_count \<le> 0 then
            (case step_counter of
               [] \<Rightarrow> Inl IndexError
             | m0 # _ \<Rightarrow>
                 let m = (if in_align inp > 0 then m0 + (in_align inp - m0 mod in_align inp) else m0)
                 in Inr \<lparr> r_xyzs = py_slice None (Some m) xyzs,
                          r_dirs = py_slice None (Some m) dirs,
                          r_deltas = py_slice None (Some m) deltas,
                          r_rays = rays, r_saved_rays = rays, r_saved_ts = ts,
                          r_step_counter = step_counter \<rparr>)
          else Inr \<lparr> r_xyzs = xyzs, r_dirs = dirs, r_deltas = deltas,
                     r_rays = rays, r_saved_rays = rays, r_saved_ts = ts,
                     r_step_counter = step_counter \<rparr>)"

text \<open>
  The wording of the specification for the row counts: \<open>x\<close> rounded up (padded) to a
  multiple of \<open>a\<close>, for a positive \<open>a\<close> the least multiple of \<open>a\<close> that is not below
  \<open>x\<close>.
\<close>

definition spec_round_up :: "int \<Rightarrow> int \<Rightarrow> int" where
  "spec_round_up x a = ((x + a - 1) div a) * a"

text \<open>The row counts of the buffers handed to the kernel, and of the returned tensors.\<close>

definition alloc_rows :: "torch_error + ('f march_train_call \<times> int) \<Rightarrow> torch_error + (int \<times> nat \<times> nat \<times> nat)" where
  "alloc_rows r = (case r of Inl e \<Rightarrow> Inl e
     | Inr (call, mc) \<Rightarrow> Inr (k_M call, length (k_xyzs call), length (k_dirs call), length (k_deltas call)))"

definition result_rows :: "torch_error + 'f march_train_result \<Rightarrow> torch_error + (nat \<times> nat \<times> nat)" where
  "result_rows r = (case r of Inl e \<Rightarrow> Inl e
     | Inr res \<Rightarrow> Inr (length (r_xyzs res), length (r_dirs res), length (r_deltas res)))"

text \<open>A call with one ray, for concrete runs.\<close>

definition demo_input :: "bool \<Rightarrow> int \<Rightarrow> int \<Rightarrow> int \<Rightarrow> int list option \<Rightarrow> real march_train_input" where
  "demo_input force mean_count align max_steps counter =
     \<lparr> in_rays_o = [[0, 0, 0]], in_rays_d = [[1, 0, 0]], in_bound = 1,
       in_density_bitfield = [], in_C = 1, in_H = 2, in_nears = [0], in_fars = [1],
       in_step_counter = counter, in_mean_count = mean_count, in_perturb = False,
       in_align = align, in_force_all_rays = force, in_dt_gamma = 0,
       in_max_steps = max_steps \<rparr>"

definition demo_mem :: "nat \<Rightarrow> nat \<Rightarrow> int" where
  "demo_mem i j = 0"

text \<open>A kernel run that emits \<open>m\<close> samples for one ray and counts them.\<close>

definition demo_kernel :: "nat \<Rightarrow> real march_train_call \<Rightarrow> real march_train_stores" where
  "demo_kernel m call =
     \<lparr> st_xyzs = map (\<lambda>i. (i, [1, 1, 1])) [0..<m],
       st_dirs = map (\<lambda>i. (i, [1, 0, 0])) [0..<m],
       st_deltas = map (\<lambda>i. (i, [1, 1])) [0..<m],
       st_ts = map (\<lambda>i. (i, [1])) [0..<m],
       st_rays = [(0, [0, 0, int m])],
       st_step_counter = [(0, int m), (1, 1)] \<rparr>"

subsection \<open>\<^verbatim>\<open>_march_rays.forward\<close>\<close>

record 'f march_input =
  m_n_alive :: int
  m_n_step :: int
  m_rays_alive :: "int list"
  m_rays_t :: "'f list"
  m_rays_o :: "'f list list"
  m_rays_d :: "'f list list"
  m_bound :: 'f
  m_density_bitfield :: "8 word list"
  m_C :: int
  m_H :: int
  m_near :: "'f list"
  m_far :: "'f list"
  m_align :: int
  m_perturb :: int
  m_dt_gamma :: 'f
  m_max_steps :: int

text \<open>What \<^verbatim>\<open>_backend.march_rays\<close> is called with (lines 523-525).\<close>

record 'f march_call =
  mk_n_alive :: int
  mk_n_step :: int
  mk_rays_alive :: "int list"
  mk_rays_t :: "'f list"
  mk_rays_o :: "'f list list"
  mk_rays_d :: "'f list list"
  mk_bound :: 'f
  mk_dt_gamma :: 'f
  mk_max_steps :: int
  mk_C :: int
  mk_H :: int
  mk_density_bitfield :: "8 word list"
  mk_near :: "'f list"
  mk_far :: "'f list"
  mk_xyzs :: "'f list list"
  mk_dirs :: "'f list list"
  mk_deltas :: "'f list list"
  mk_perturb :: int

text \<open>The stores of the kernel into the three buffers the wrapper returns.\<close>

record 'f march_stores =
  ms_xyzs :: "(nat \<times> 'f list) list"
  ms_dirs :: "(nat \<times> 'f list) list"
  ms_deltas :: "(nat \<times> 'f list) list"

text \<open>Lines 512-527.\<close>

definition march_rays_forward ::
  "(('f::zero) march_call \<Rightarrow> 'f march_stores) \<Rightarrow> 'f march_input \<Rightarrow>
   torch_error + ('f list list \<times> 'f list list \<times> 'f list list)" where
  "march_rays_forward kern inp =
     (let M0 = m_n_alive inp * m_n_step inp;
          M = (if m_align inp > 0 then M0 + (m_align inp - (M0 mod m_align inp)) else M0)
      in seq (torch_zeros M 3) (\<lambda>xyzs.
         seq (torch_zeros M 3) (\<lambda>dirs.
         seq (torch_zeros M 2) (\<lambda>deltas.
         let st = kern \<lparr> mk_n_alive = m_n_alive inp, mk_n_step = m_n_step inp,
                          mk_rays_alive = m_rays_alive inp, mk_rays_t = m_rays_t inp,
                          mk_rays_o = m_rays_o inp, mk_rays_d = m_rays_d inp,
                          mk_bound = m_bound inp, mk_dt_gamma = m_dt_gamma inp,
                          mk_max_steps = m_max_steps inp, mk_C = m_C inp, mk_H = m_H inp,
                          mk_density_bitfield = m_density_bitfield inp,
                          mk_near = m_near inp, mk_far = m_far inp,
                          mk_xyzs = xyzs, mk_dirs = dirs, mk_deltas = deltas,
                          mk_perturb = m_perturb inp \<rparr>
         in Inr (apply_stores (ms_xyzs st) xyzs,
                 apply_stores (ms_dirs st) dirs,
                 apply_stores (ms_deltas st) deltas)))))"

definition march_rows ::
  "torch_error + ('f list list \<times> 'f list list \<times> 'f list list) \<Rightarrow> torch_error + (nat \<times> nat \<times> nat)" where
  "march_rows r = (case r of Inl e \<Rightarrow> Inl e
     | Inr (xyzs, dirs, deltas) \<Rightarrow> Inr (length xyzs, length dirs, length deltas))"

text \<open>A call of the inference marcher with two rays, and a kernel run that stores nothing.\<close>

definition demo_march_input :: "int \<Rightarrow> int \<Rightarrow> int \<Rightarrow> real march_input" where
  "demo_march_input n_alive n_step align =
     \<lparr> m_n_alive = n_alive, m_n_step = n_step, m_rays_alive = [0, 1], m_rays_t = [0, 0],
       m_rays_o = [[0, 0, 0], [0, 0, 0]], m_rays_d = [[1, 0, 0], [0, 1, 0]], m_bound = 1,
       m_density_bitfield = [], m_C = 1, m_H = 2, m_near = [0, 0], m_far = [1, 1],
       m_align = align, m_perturb = 0, m_dt_gamma = 0, m_max_steps = 1024 \<rparr>"

definition idle_kernel :: "real march_call \<Rightarrow> real march_stores" where
  "idle_kernel call = \<lparr> ms_xyzs = [], ms_dirs = [], ms_deltas = [] \<rparr>"

subsection \<open>\<^verbatim>\<open>_composite_rays_train.backward\<close>\<close>

text \<open>The tensors the forward pass saved (line 425) and \<^verbatim>\<open>ctx.dims\<close>.\<close>

record 'f composite_ctx =
  c_sigmas :: "'f list"
  c_rgbs :: "'f list list"
  c_deltas :: "'f list list"
  c_rays :: "int list list"
  c_weights_sum :: "'f list"
  c_depth :: "'f list"
  c_image :: "'f list list"
  c_M :: nat
  c_N :: nat

text \<open>What \<^verbatim>\<open>_backend.composite_rays_train_backward\<close> is called with (lines 446-449).\<close>

record 'f composite_bwd_call =
  cb_grad_weights_sum :: "'f list"
  cb_grad_image :: "'f list list"
  cb_sigmas :: "'f list"
  cb_rgbs :: "'f list list"
  cb_deltas :: "'f list list"
  cb_rays :: "int list list"
  cb_weights_sum :: "'f list"
  cb_image :: "'f list list"
  cb_M :: nat
  cb_N :: nat
  cb_grad_sigmas :: "'f list"
  cb_grad_rgbs :: "'f list list"

record 'f composite_bwd_stores =
  cs_grad_sigmas :: "(nat \<times> 'f) list"
  cs_grad_rgbs :: "(nat \<times> 'f list) list"

text \<open>
  Lines 433-451. \<^verbatim>\<open>contiguous()\<close> changes the layout of a tensor and not its values.
  The two \<open>None\<close> of the returned tuple are left out.
\<close>

definition composite_rays_train_backward ::
  "(('f::zero) composite_bwd_call \<Rightarrow> 'f composite_bwd_stores) \<Rightarrow> 'f composite_ctx \<Rightarrow>
   'f list \<Rightarrow> 'f list \<Rightarrow> 'f list list \<Rightarrow> 'f list \<times> 'f list list" where
  "composite_rays_train_backward kern ctx grad_weights_sum grad_depth grad_image =
     (let grad_sigmas = map (\<lambda>_. 0) (c_sigmas ctx);
          grad_rgbs = map (map (\<lambda>_. 0)) (c_rgbs ctx);
          st = kern \<lparr> cb_grad_weights_sum = grad_weights_sum, cb_grad_image = grad_image,
                       cb_sigmas = c_sigmas ctx, cb_rgbs = c_rgbs ctx, cb_deltas = c_deltas ctx,
                       cb_rays = c_rays ctx, cb_weights_sum = c_weights_sum ctx,
                       cb_image = c_image ctx, cb_M = c_M ctx, cb_N = c_N ctx,
                       cb_grad_sigmas = grad_sigmas, cb_grad_rgbs = grad_rgbs \<rparr>
      in (apply_stores (cs_grad_sigmas st) grad_sigmas,
          apply_stores (cs_grad_rgbs st) grad_rgbs))"

subsection \<open>Tensors of rank one and two\<close>

text \<open>
  \<open>Vec xs\<close> has the shape \<open>[length xs]\<close>; \<open>Mat c rows\<close> has the shape
  \<open>[length rows, c]\<close> (the column count is kept for a tensor without rows).
\<close>

datatype 'a tensor = Vec "'a list" | Mat nat "'a list list"

fun shape :: "'a tensor \<Rightarrow> nat list" where
  "shape (Vec xs) = [length xs]"
| "shape (Mat c rows) = [length rows, c]"

text \<open>\<^verbatim>\<open>t[a:b]\<close>: a slice of the first dimension.\<close>

fun slice0 :: "int option \<Rightarrow> int option \<Rightarrow> 'a tensor \<Rightarrow> 'a tensor" where
  "slice0 a b (Vec xs) = Vec (py_slice a b xs)"
| "slice0 a b (Mat c rows) = Mat c (py_slice a b rows)"

text \<open>
  \<^verbatim>\<open>t[:, j]\<close>: column \<open>j\<close> of a matrix. A vector has no second dimension, and a column
  outside \<open>-c..c-1\<close> does not exist.
\<close>

fun select1 :: "int \<Rightarrow> 'a tensor \<Rightarrow> torch_error + 'a tensor" where
  "select1 j (Vec xs) = Inl IndexError"
| "select1 j (Mat c rows) =
     (if - int c \<le> j \<and> j < int c
      then Inr (Vec (map (\<lambda>r. r ! nat (if j < 0 then j + int c else j)) rows))
      else Inl IndexError)"

text \<open>
  Broadcasting of one dimension: equal sizes, or one of them is 1. Then the elementwise
  operation on two rows for the result width \<open>c\<close>.
\<close>

definition bc_dim :: "nat \<Rightarrow> nat \<Rightarrow> torch_error + nat" where
  "bc_dim a b = (if a = b then Inr a else if a = 1 then Inr b else if b = 1 then Inr a
                 else Inl RuntimeError)"

definition bc_row :: "('a \<Rightarrow> 'a \<Rightarrow> 'a) \<Rightarrow> 'a list \<Rightarrow> 'a list \<Rightarrow> nat \<Rightarrow> 'a list" where
  "bc_row f xs ys c =
     map (\<lambda>j. f (xs ! (if length xs = 1 then 0 else j)) (ys ! (if length ys = 1 then 0 else j)))
       [0..<c]"

text \<open>
  An elementwise binary operation of torch (\<^verbatim>\<open>+\<close>, \<^verbatim>\<open>*\<close>) with broadcasting: a vector
  lines up with the last dimension of a matrix.
\<close>

fun torch_binop :: "('a \<Rightarrow> 'a \<Rightarrow> 'a) \<Rightarrow> 'a tensor \<Rightarrow> 'a tensor \<Rightarrow> torch_error + 'a tensor" where
  "torch_binop f (Vec xs) (Vec ys) =
     seq (bc_dim (length xs) (length ys)) (\<lambda>c. Inr (Vec (bc_row f xs ys c)))"
| "torch_binop f (Vec xs) (Mat c rows) =
     seq (bc_dim (length xs) c) (\<lambda>c'. Inr (Mat c' (map (\<lambda>r. bc_row f xs r c') rows)))"
| "torch_binop f (Mat c rows) (Vec ys) =
     seq (bc_dim c (length ys)) (\<lambda>c'. Inr (Mat c' (map (\<lambda>r. bc_row f r ys c') rows)))"
| "torch_binop f (Mat c rows) (Mat d rows') =
     seq (bc_dim c d) (\<lambda>c'.
     seq (bc_dim (length rows) (length rows')) (\<lambda>n.
       Inr (Mat c' (map (\<lambda>i. bc_row f (rows ! (if length rows = 1 then 0 else i))
                                       (rows' ! (if length rows' = 1 then 0 else i)) c')
                      [0..<n]))))"

text \<open>
  \<^verbatim>\<open>torch.cat\<close> along the first dimension. The tensors must have the same number of
  dimensions and agree on the other dimension; only an empty vector (shape \<open>(0,)\<close>) is
  skipped.
\<close>

fun cat2 :: "'a tensor \<Rightarrow> 'a tensor \<Rightarrow> torch_error + 'a tensor" where
  "cat2 (Vec xs) (Vec ys) = Inr (Vec (xs @ ys))"
| "cat2 (Mat c rows) (Mat d rows') =
     (if c = d then Inr (Mat c (rows @ rows')) else Inl RuntimeError)"
| "cat2 (Vec xs) (Mat d rows') = (if xs = [] then Inr (Mat d rows') else Inl RuntimeError)"
| "cat2 (Mat c rows) (Vec ys) = (if ys = [] then Inr (Mat c rows) else Inl RuntimeError)"

fun torch_cat :: "'a tensor list \<Rightarrow> torch_error + 'a tensor" where
  "torch_cat [] = Inl RuntimeError"
| "torch_cat [t] = Inr t"
| "torch_cat (t # u # ts) = seq (cat2 t u) (\<lambda>tu. torch_cat (tu # ts))"

text \<open>
  \<^verbatim>\<open>segment_csr(src, indptr)\<close> of torch_scatter with the default reduction, the sum:
  entry \<open>i\<close> of the result is the sum of \<open>src[indptr[i] : indptr[i+1]]\<close> along the last
  dimension of \<open>indptr\<close>. A pointer outside the source is undefined behaviour of the
  library; here the range is cut to the source.
\<close>

definition seg_ranges :: "int list \<Rightarrow> (nat \<times> nat) list" where
  "seg_ranges ip = map (\<lambda>i. (nat (ip ! i), nat (ip ! Suc i))) [0..<length ip - 1]"

definition seg_take :: "'a list \<Rightarrow> nat \<times> nat \<Rightarrow> 'a list" where
  "seg_take xs ab = take (snd ab - fst ab) (drop (fst ab) xs)"

definition sum_rows :: "nat \<Rightarrow> ('a::monoid_add) list list \<Rightarrow> 'a list" where
  "sum_rows c rows = map (\<lambda>j. sum_list (map (\<lambda>r. r ! j) rows)) [0..<c]"

fun segment_csr :: "('a::monoid_add) tensor \<Rightarrow> int tensor \<Rightarrow> torch_error + 'a tensor" where
  "segment_csr (Vec xs) (Vec ip) = Inr (Vec (map (\<lambda>ab. sum_list (seg_take xs ab)) (seg_ranges ip)))"
| "segment_csr (Mat c rows) (Vec ip) =
     Inr (Mat c (map (\<lambda>ab. sum_rows c (seg_take rows ab)) (seg_ranges ip)))"
| "segment_csr (Vec xs) (Mat k ips) = Inl RuntimeError"
| "segment_csr (Mat c rows) (Mat k ips) =
     (if length ips = length rows \<or> length ips = 1
      then Inr (Mat (k - 1)
             (map (\<lambda>b. map (\<lambda>ab. sum_list (seg_take (rows ! b) ab))
                          (seg_ranges (ips ! (if length ips = 1 then 0 else b))))
                [0..<length rows]))
      else Inl RuntimeError)"

text \<open>\<^verbatim>\<open>rearrange(t, "n -> n 1")\<close> of einops: the pattern takes tensors of rank one only.\<close>

fun rearrange_n_to_n1 :: "'a tensor \<Rightarrow> torch_error + 'a tensor" where
  "rearrange_n_to_n1 (Vec xs) = Inr (Mat 1 (map (\<lambda>x. [x]) xs))"
| "rearrange_n_to_n1 (Mat c rows) = Inl EinopsError"

subsection \<open>\<^verbatim>\<open>_march_rays_train.backward\<close>\<close>

text \<open>
  Lines 363-389, in the order Python evaluates them: \<^verbatim>\<open>rays[:, 1]\<close>, \<^verbatim>\<open>rays[-1:, 1]\<close>,
  \<^verbatim>\<open>rays[-1:2]\<close>, their sum, \<^verbatim>\<open>torch.cat\<close>, the first \<^verbatim>\<open>segment_csr\<close>, then
  \<^verbatim>\<open>rearrange\<close>, the product, the sum and the second \<^verbatim>\<open>segment_csr\<close>. The gradients
  \<^verbatim>\<open>dL_ddeltas\<close> and \<^verbatim>\<open>dL_drays\<close> are not read, and the thirteen \<open>None\<close> of the returned
  tuple are left out.
\<close>

definition march_rays_train_backward ::
  "int tensor \<Rightarrow> ('a::semiring_0) tensor \<Rightarrow> 'a tensor \<Rightarrow> 'a tensor \<Rightarrow>
   torch_error + ('a tensor \<times> 'a tensor)" where
  "march_rays_train_backward rays ts dL_dxyzs dL_ddirs =
     seq (select1 1 rays) (\<lambda>offsets.
     seq (select1 1 (slice0 (Some (- 1)) None rays)) (\<lambda>last_offset.
     seq (torch_binop (+) last_offset (slice0 (Some (- 1)) (Some 2) rays)) (\<lambda>last_end.
     seq (torch_cat [offsets, last_end]) (\<lambda>segments.
     seq (segment_csr dL_dxyzs segments) (\<lambda>dL_drays_o.
     seq (rearrange_n_to_n1 ts) (\<lambda>ts1.
     seq (torch_binop (*) dL_dxyzs ts1) (\<lambda>scaled.
     seq (torch_binop (+) scaled dL_ddirs) (\<lambda>summand.
     seq (segment_csr summand segments) (\<lambda>dL_drays_d.
       Inr (dL_drays_o, dL_drays_d))))))))))"

subsection \<open>\<^verbatim>\<open>_near_far_from_aabb.backward\<close>\<close>

text \<open>
  The values of a float tensor, as far as this pass needs them: a finite number, or a
  value that is not one (an infinity or a NaN). Arithmetic on finite values is exact here:
  rounding and overflow are left out, and so is the sign of a zero. A division by zero
  gives a value that is not finite (\<open>0/0\<close> is a NaN, \<open>x/0\<close> an infinity), and an
  operation on such a value gives one again; for a division by an infinity this says more
  than the machine does, and it arises only when a direction is not finite itself.
\<close>

datatype fl = Fin real | NonFinite

fun fl_add :: "fl \<Rightarrow> fl \<Rightarrow> fl" where
  "fl_add (Fin a) (Fin b) = Fin (a + b)"
| "fl_add _ _ = NonFinite"

fun fl_sub :: "fl \<Rightarrow> fl \<Rightarrow> fl" where
  "fl_sub (Fin a) (Fin b) = Fin (a - b)"
| "fl_sub _ _ = NonFinite"

fun fl_mul :: "fl \<Rightarrow> fl \<Rightarrow> fl" where
  "fl_mul (Fin a) (Fin b) = Fin (a * b)"
| "fl_mul _ _ = NonFinite"

fun fl_div :: "fl \<Rightarrow> fl \<Rightarrow> fl" where
  "fl_div (Fin a) (Fin b) = (if b = 0 then NonFinite else Fin (a / b))"
| "fl_div _ _ = NonFinite"

text \<open>
  Lines 63-77. The two indexed assignments need one column index per row: with another
  number of indices the index tensors do not fit each other and the assignment raises.
\<close>

definition get_indicator :: "int list \<Rightarrow> nat \<Rightarrow> torch_error + fl list list" where
  "get_indicator indices N =
     (let near_dim = map (\<lambda>i. i mod 3) indices;
          invalid_near = map (\<lambda>i. i = 255) indices;
          indicator = replicate N (replicate 3 (Fin 0))
      in if length indices \<noteq> N then Inl IndexError
         else
           let indicator1 = map (\<lambda>b. (indicator ! b)[nat (near_dim ! b) := Fin 1]) [0..<N];
               indicator2 = map (\<lambda>b. if invalid_near ! b
                                        then (indicator1 ! b)[nat (near_dim ! b) := Fin 0]
                                        else indicator1 ! b) [0..<N]
           in Inr indicator2)"

text \<open>
  Lines 95-133, on the saved tensors: \<open>aabb\<close> with its six entries, the rays as rows of
  three, the hit indices as integers. \<^verbatim>\<open>a * -1. / b\<close> is \<^verbatim>\<open>(a * -1.) / b\<close>. The
  \<^verbatim>\<open>print\<close> of line 132 and the two \<open>None\<close> of the returned tuple are left out.
\<close>

definition near_far_from_aabb_backward ::
  "fl list \<Rightarrow> fl list list \<Rightarrow> fl list list \<Rightarrow> int list \<Rightarrow> int list \<Rightarrow> fl list \<Rightarrow> fl list \<Rightarrow>
   torch_error + (fl tensor \<times> fl tensor)" where
  "near_far_from_aabb_backward aabb rays_o rays_d near_indices far_indices dL_dnears dL_dfars =
     (let N = length rays_o; ro = Mat 3 rays_o; rd = Mat 3 rays_d in
      seq (get_indicator near_indices N) (\<lambda>ind_near.
      seq (get_indicator far_indices N) (\<lambda>ind_far.
      let indicator_near = Mat 3 ind_near; indicator_far = Mat 3 ind_far in
      seq (rearrange_n_to_n1 (Vec (map (\<lambda>i. aabb ! nat (i mod 6)) near_indices))) (\<lambda>aabb_near.
      seq (rearrange_n_to_n1 (Vec (map (\<lambda>i. aabb ! nat (i mod 6)) far_indices))) (\<lambda>aabb_far.
      seq (rearrange_n_to_n1 (Vec dL_dnears)) (\<lambda>dL_dnears_r.
      seq (rearrange_n_to_n1 (Vec dL_dfars)) (\<lambda>dL_dfars_r.
      seq (torch_binop fl_mul indicator_near (Vec [Fin (- 1)])) (\<lambda>neg_near.
      seq (torch_binop fl_div neg_near rd) (\<lambda>dtnear_dray_o.
      seq (torch_binop fl_mul indicator_far (Vec [Fin (- 1)])) (\<lambda>neg_far.
      seq (torch_binop fl_div neg_far rd) (\<lambda>dtfar_dray_o.
      seq (torch_binop fl_mul dL_dnears_r dtnear_dray_o) (\<lambda>o_near.
      seq (torch_binop fl_mul dL_dfars_r dtfar_dray_o) (\<lambda>o_far.
      seq (torch_binop fl_add o_near o_far) (\<lambda>dL_drays_o.
      seq (torch_binop fl_mul rd rd) (\<lambda>rays_d_sq.
      seq (torch_binop fl_div ro rays_d_sq) (\<lambda>o_sq.
      seq (torch_binop fl_div aabb_near rays_d_sq) (\<lambda>near_sq.
      seq (torch_binop fl_sub o_sq near_sq) (\<lambda>diff_near.
      seq (torch_binop fl_mul indicator_near diff_near) (\<lambda>dtnear_dray_d.
      seq (torch_binop fl_div aabb_far rays_d_sq) (\<lambda>far_sq.
      seq (torch_binop fl_sub o_sq far_sq) (\<lambda>diff_far.
      seq (torch_binop fl_mul indicator_far diff_far) (\<lambda>dtfar_dray_d.
      seq (torch_binop fl_mul dL_dnears_r dtnear_dray_d) (\<lambda>d_near.
      seq (torch_binop fl_mul dL_dfars_r dtfar_dray_d) (\<lambda>d_far.
      seq (torch_binop fl_add d_near d_far) (\<lambda>dL_drays_d.
        Inr (dL_drays_o, dL_drays_d))))))))))))))))))))))))))"

text \<open>The unit cube of the end-to-end scenario of the specification.\<close>

definition unit_cube :: "fl list" where
  "unit_cube = [Fin (- 1), Fin (- 1), Fin (- 1), Fin 1, Fin 1, Fin 1]"

subsection \<open>\<^verbatim>\<open>_morton3D\<close> and \<^verbatim>\<open>_morton3D_invert\<close>\<close>

text \<open>
  Modelled from the spec: the bit interleaving of section 4.1 of the specification, the
  work of the two Morton kernels, which are not in the Python source. Bit \<open>i\<close> of
  \<open>x\<close>, \<open>y\<close> and \<open>z\<close> is bit \<open>3i\<close>, \<open>3i + 1\<close> and \<open>3i + 2\<close> of the result;
  the second function takes the bits apart again. These two are on numbers of any size;
  the kernels below cut them to 32 bits.
\<close>

function interleave3 :: "nat \<Rightarrow> nat \<Rightarrow> nat \<Rightarrow> nat" where
  "interleave3 x y z =
     (if x = 0 \<and> y = 0 \<and> z = 0 then 0
      else x mod 2 + 2 * (y mod 2) + 4 * (z mod 2) + 8 * interleave3 (x div 2) (y div 2) (z div 2))"
  by pat_completeness auto
termination
  by (relation "measure (\<lambda>(x, y, z). x + y + z)") (auto simp: div_less_dividend)

fun deinterleave3 :: "nat \<Rightarrow> nat \<times> nat \<times> nat" where
  "deinterleave3 i =
     (if i = 0 then (0, 0, 0)
      else (case deinterleave3 (i div 8) of
              (x, y, z) \<Rightarrow> (i mod 2 + 2 * x, (i div 2) mod 2 + 2 * y, (i div 4) mod 2 + 2 * z)))"

text \<open>
  Modelled from the spec: the kernels \<^verbatim>\<open>_backend.morton3D\<close> and
  \<^verbatim>\<open>_backend.morton3D_invert\<close> are not in the Python source. Section 4.1 of the
  specification: \<open>encode\<close> interleaves the bits of the three coordinates into a single
  Morton code, an index of 32 bits, and \<open>decode\<close> takes the code apart again (the
  specification does not say which coordinate comes first). Coordinates and codes are the
  32-bit cells of the tensors of lines 191-193 and 217-219; the code is the low 32 bits of
  the interleaving, so of coordinates from 1024 on some bits are lost. Below \<open>2\<^sup>3\<^sup>1\<close> the
  signed and the unsigned reading of a cell agree.
\<close>

definition morton3D :: "32 word \<Rightarrow> 32 word \<Rightarrow> 32 word \<Rightarrow> 32 word" where
  "morton3D x y z = word_of_nat (interleave3 (unat x) (unat y) (unat z))"

definition morton3D_invert :: "32 word \<Rightarrow> 32 word \<times> 32 word \<times> 32 word" where
  "morton3D_invert i =
     (case deinterleave3 (unat i) of (x, y, z) \<Rightarrow> (word_of_nat x, word_of_nat y, word_of_nat z))"

text \<open>Lines 177-195 and 204-221: one code per row of coordinates, and back.\<close>

definition morton3D_forward :: "32 word list list \<Rightarrow> 32 word list" where
  "morton3D_forward coords = map (\<lambda>c. morton3D (c ! 0) (c ! 1) (c ! 2)) coords"

definition morton3D_invert_forward :: "32 word list \<Rightarrow> 32 word list list" where
  "morton3D_invert_forward indices =
     map (\<lambda>i. case morton3D_invert i of (x, y, z) \<Rightarrow> [x, y, z]) indices"

text \<open>
  The valid coordinates \<open>[0,H)\<^sup>3\<close> and the codes \<open>[0,H\<^sup>3)\<close> of a grid of resolution
  \<open>H\<close>, and the code of a triple.
\<close>

definition grid_coords :: "nat \<Rightarrow> (32 word \<times> 32 word \<times> 32 word) set" where
  "grid_coords H = {c. case c of (x, y, z) \<Rightarrow> unat x < H \<and> unat y < H \<and> unat z < H}"

definition grid_codes :: "nat \<Rightarrow> 32 word set" where
  "grid_codes H = {i. unat i < H ^ 3}"

definition morton3D_of :: "32 word \<times> 32 word \<times> 32 word \<Rightarrow> 32 word" where
  "morton3D_of c = (case c of (x, y, z) \<Rightarrow> morton3D x y z)"

subsection \<open>\<^verbatim>\<open>_packbits.forward\<close>\<close>

text \<open>
  Lines 240-253. \<^verbatim>\<open>grid.shape[1]\<close> does not exist for a tensor of rank one. The contiguous
  grid is handed to the kernel row after row. Without a \<open>bitfield\<close> from the caller the
  wrapper allocates \<open>N = C * H3 // 8\<close> bytes, uninitialised.
\<close>

definition packbits_forward ::
  "('f list \<Rightarrow> nat \<Rightarrow> 'f \<Rightarrow> 8 word list \<Rightarrow> (nat \<times> 8 word) list) \<Rightarrow> (nat \<Rightarrow> 8 word) \<Rightarrow>
   'f tensor \<Rightarrow> 'f \<Rightarrow> 8 word list option \<Rightarrow> torch_error + 8 word list" where
  "packbits_forward kern mem grid thresh bitfield =
     (case grid of
        Vec xs \<Rightarrow> Inl IndexError
      | Mat H3 rows \<Rightarrow>
          (let C = length rows;
               N = C * H3 div 8;
               bf = (case bitfield of None \<Rightarrow> map mem [0..<N] | Some b \<Rightarrow> b)
           in Inr (apply_stores (kern (concat rows) N thresh bf) bf)))"

text \<open>
  Modelled from the spec: the kernel \<^verbatim>\<open>_backend.packbits\<close> is not in the Python source.
  Sections 4.1 and 6 of the specification: 8 consecutive cells pack into one byte, bit
  \<open>b\<close> of byte \<open>n\<close> is the cell \<open>8n + b\<close>, and the bit is 1 iff the cell is above the
  threshold. The kernel stores the \<open>N\<close> bytes and reads nothing of the old bitfield.
\<close>

definition packbits_byte :: "('f::ord) list \<Rightarrow> 'f \<Rightarrow> nat \<Rightarrow> 8 word" where
  "packbits_byte grid thresh n =
     horner_sum of_bool 2 (map (\<lambda>b. thresh < grid ! (8 * n + b)) [0..<8])"

definition packbits_kernel :: "('f::ord) list \<Rightarrow> nat \<Rightarrow> 'f \<Rightarrow> 8 word list \<Rightarrow> (nat \<times> 8 word) list" where
  "packbits_kernel grid N thresh bitfield = map (\<lambda>n. (n, packbits_byte grid thresh n)) [0..<N]"

subsection \<open>\<^verbatim>\<open>_compact_rays.forward\<close>\<close>




text \<open>Memory for the concrete run of \<^verbatim>\<open>packbits\<close>.\<close>

definition demo_bytes :: "nat \<Rightarrow> 8 word" where
  "demo_bytes n = 0"

section \<open>Properties\<close>

subsection \<open>Stores and slices\<close>

lemma length_apply_stores: "length (apply_stores ws buf) = length buf"
  unfolding apply_stores_def by (induction ws arbitrary: buf) simp_all

lemma nth_apply_stores_other:
  "i \<notin> fst ` set ws \<Longrightarrow> apply_stores ws buf ! i = buf ! i"
  unfolding apply_stores_def by (induction ws arbitrary: buf) auto

lemma length_py_slice_prefix:
  "length (py_slice None (Some m) xs) = (if m < 0 then nat (int (length xs) + m) else min (nat m) (length xs))"
  by (simp add: py_slice_def py_slice_index_def Let_def)

lemma torch_zeros_Inr:
  "torch_zeros m c = Inr (b :: ('f::zero) list list) \<longleftrightarrow> 0 \<le> m \<and> b = replicate (nat m) (replicate c 0)"
  by (auto simp: torch_zeros_def)


lemma pad_multiple: "(x + (a - x mod a)) mod a = (0::int)"
proof -
  have "x + (a - x mod a) = a * (x div a + 1)"
    using mult_div_mod_eq [of a x] by (simp add: algebra_simps)
  then show ?thesis by simp
qed

lemma pad_bounds: "0 < a \<Longrightarrow> x < x + (a - x mod a) \<and> x + (a - x mod a) \<le> x + (a::int)"
  using pos_mod_bound [of a x] pos_mod_sign [of a x] by simp

subsection \<open>The capacity of the training marcher\<close>

lemma alloc_Inr:
  assumes "march_rays_train_alloc mem inp = Inr (call, mc)"
  shows "k_M call = fst (march_rays_train_capacity (length (in_rays_o inp)) (in_max_steps inp)
             (in_force_all_rays inp) (in_mean_count inp) (in_align inp))"
    and "mc = snd (march_rays_train_capacity (length (in_rays_o inp)) (in_max_steps inp)
             (in_force_all_rays inp) (in_mean_count inp) (in_align inp))"
    and "0 \<le> k_M call"
    and "k_xyzs call = replicate (nat (k_M call)) (replicate 3 0)"
    and "k_dirs call = replicate (nat (k_M call)) (replicate 3 0)"
    and "k_deltas call = replicate (nat (k_M call)) (replicate 2 0)"
    and "k_ts call = replicate (nat (k_M call)) (replicate 1 0)"
  using assms
  by (auto simp: march_rays_train_alloc_def Let_def seq_def torch_zeros_def
           split: prod.splits if_splits)

lemma demo_alloc:
  "march_rays_train_alloc demo_mem (demo_input force mean_count align max_steps counter) = Inr (call, mc)
   \<Longrightarrow> alloc_rows (march_rays_train_alloc demo_mem (demo_input force mean_count align max_steps counter))
       = Inr (k_M call, length (k_xyzs call), length (k_dirs call), length (k_deltas call))"
  by (simp add: alloc_rows_def)

text \<open>
  C4, as the specification words it: in the amortized mode \<open>M\<close> is \<open>mean_count\<close> rounded up to
  a multiple of \<open>align\<close>. At \<open>mean_count = 8\<close>, \<open>align = 4\<close> the wrapper allocates 12 rows,
  where rounding 8 up to a multiple of 4 gives 8.
\<close>

theorem march_rays_train_capacity_counterexample:
  "alloc_rows (march_rays_train_alloc demo_mem (demo_input False 8 4 1024 None)) = Inr (12, 12, 12, 12)
   \<and> spec_round_up 8 4 = 8"
  by (simp add: alloc_rows_def march_rays_train_alloc_def march_rays_train_capacity_def
        demo_input_def seq_def torch_zeros_def spec_round_up_def Let_def)

text \<open>
  C4, amended. The capacity \<open>M\<close> handed to the kernel is \<open>N * max_steps\<close> when
  \<open>force_all_rays\<close> is set or \<open>mean_count\<close> is not positive. Otherwise it is \<open>mean_count\<close> when
  \<open>align\<close> is not positive, and \<open>mean_count + (align - mean_count mod align)\<close> when it is:
  the least multiple of \<open>align\<close> strictly above \<open>mean_count\<close>. The buffers \<open>xyzs\<close>, \<open>dirs\<close>
  and \<open>deltas\<close> are allocated with exactly \<open>M\<close> rows, all zero.
\<close>

theorem march_rays_train_capacity_rows:
  assumes "march_rays_train_alloc mem inp = Inr (call, mc)"
  shows "(in_force_all_rays inp \<or> in_mean_count inp \<le> 0 \<longrightarrow>
            k_M call = int (length (in_rays_o inp)) * in_max_steps inp)
       \<and> (\<not> in_force_all_rays inp \<and> 0 < in_mean_count inp \<and> in_align inp \<le> 0 \<longrightarrow>
            k_M call = in_mean_count inp)
       \<and> (\<not> in_force_all_rays inp \<and> 0 < in_mean_count inp \<and> 0 < in_align inp \<longrightarrow>
            k_M call = in_mean_count inp + (in_align inp - in_mean_count inp mod in_align inp)
            \<and> k_M call mod in_align inp = 0
            \<and> in_mean_count inp < k_M call \<and> k_M call \<le> in_mean_count inp + in_align inp)
       \<and> 0 \<le> k_M call
       \<and> k_xyzs call = replicate (nat (k_M call)) (replicate 3 0)
       \<and> k_dirs call = replicate (nat (k_M call)) (replicate 3 0)
       \<and> k_deltas call = replicate (nat (k_M call)) (replicate 2 0)"
proof -
  note a = alloc_Inr [OF assms]
  have "in_force_all_rays inp \<or> in_mean_count inp \<le> 0 \<longrightarrow>
          k_M call = int (length (in_rays_o inp)) * in_max_steps inp"
    by (auto simp: a(1) march_rays_train_capacity_def Let_def)
  moreover have "\<not> in_force_all_rays inp \<and> 0 < in_mean_count inp \<and> in_align inp \<le> 0 \<longrightarrow>
          k_M call = in_mean_count inp"
    by (simp add: a(1) march_rays_train_capacity_def Let_def)
  moreover have "\<not> in_force_all_rays inp \<and> 0 < in_mean_count inp \<and> 0 < in_align inp \<longrightarrow>
          k_M call = in_mean_count inp + (in_align inp - in_mean_count inp mod in_align inp)
          \<and> k_M call mod in_align inp = 0
          \<and> in_mean_count inp < k_M call \<and> k_M call \<le> in_mean_count inp + in_align inp"
    using pad_bounds [of "in_align inp" "in_mean_count inp"]
    by (simp add: a(1) march_rays_train_capacity_def Let_def pad_multiple)
  ultimately show ?thesis
    using a(3,4,5,6) by blast
qed

theorem march_rays_train_capacity_rows_witness:
  "alloc_rows (march_rays_train_alloc demo_mem (demo_input True (-1) 4 1024 None)) = Inr (1024, 1024, 1024, 1024)
   \<and> alloc_rows (march_rays_train_alloc demo_mem (demo_input False 10 (-1) 1024 None)) = Inr (10, 10, 10, 10)
   \<and> alloc_rows (march_rays_train_alloc demo_mem (demo_input False 10 4 1024 None)) = Inr (12, 12, 12, 12)"
proof -
  obtain c1 m1 where r1: "march_rays_train_alloc demo_mem (demo_input True (-1) 4 1024 None) = Inr (c1, m1)"
    by (simp add: march_rays_train_alloc_def march_rays_train_capacity_def demo_input_def
          seq_def torch_zeros_def Let_def)
  obtain c2 m2 where r2: "march_rays_train_alloc demo_mem (demo_input False 10 (-1) 1024 None) = Inr (c2, m2)"
    by (simp add: march_rays_train_alloc_def march_rays_train_capacity_def demo_input_def
          seq_def torch_zeros_def Let_def)
  obtain c3 m3 where r3: "march_rays_train_alloc demo_mem (demo_input False 10 4 1024 None) = Inr (c3, m3)"
    by (simp add: march_rays_train_alloc_def march_rays_train_capacity_def demo_input_def
          seq_def torch_zeros_def Let_def)
  have "k_M c1 = 1024 \<and> length (k_xyzs c1) = 1024 \<and> length (k_dirs c1) = 1024 \<and> length (k_deltas c1) = 1024"
    using march_rays_train_capacity_rows [OF r1] by (simp add: demo_input_def)
  moreover have "k_M c2 = 10 \<and> length (k_xyzs c2) = 10 \<and> length (k_dirs c2) = 10 \<and> length (k_deltas c2) = 10"
    using march_rays_train_capacity_rows [OF r2] by (simp add: demo_input_def)
  moreover have "k_M c3 = 12 \<and> length (k_xyzs c3) = 12 \<and> length (k_dirs c3) = 12 \<and> length (k_deltas c3) = 12"
    using march_rays_train_capacity_rows [OF r3] by (simp add: demo_input_def)
  ultimately show ?thesis
    using demo_alloc [OF r1] demo_alloc [OF r2] demo_alloc [OF r3] by simp
qed

subsection \<open>The untrimmed outputs of the amortized mode\<close>

lemma amortized_alloc:
  assumes "\<not> in_force_all_rays inp" and "0 < in_mean_count inp"
  shows "\<exists>call mc. march_rays_train_alloc mem inp = Inr (call, mc) \<and> 0 < mc"
proof -
  have "0 < in_align inp \<Longrightarrow>
          0 < in_mean_count inp + (in_align inp - in_mean_count inp mod in_align inp)"
    using pad_bounds [of "in_align inp" "in_mean_count inp"] assms(2) by linarith
  then show ?thesis
    using assms
    by (auto simp: march_rays_train_alloc_def march_rays_train_capacity_def Let_def seq_def
          torch_zeros_def)
qed

text \<open>
  C10. In the amortized mode (\<open>force_all_rays\<close> false, \<open>mean_count\<close> positive) the call
  returns, whatever the kernel stores: the returned \<open>xyzs\<close>, \<open>dirs\<close> and \<open>deltas\<close> have the
  full allocated length \<open>M\<close>, and every row the kernel did not store to is zero.
\<close>

theorem amortized_rows_untrimmed:
  assumes "\<not> in_force_all_rays inp" and "0 < in_mean_count inp"
  shows "\<exists>call mc res.
           march_rays_train_alloc mem inp = Inr (call, mc)
         \<and> march_rays_train_forward kern mem inp = Inr res
         \<and> length (r_xyzs res) = nat (k_M call)
         \<and> length (r_dirs res) = nat (k_M call)
         \<and> length (r_deltas res) = nat (k_M call)
         \<and> (\<forall>i < nat (k_M call). i \<notin> fst ` set (st_xyzs (kern call)) \<longrightarrow> r_xyzs res ! i = replicate 3 0)
         \<and> (\<forall>i < nat (k_M call). i \<notin> fst ` set (st_dirs (kern call)) \<longrightarrow> r_dirs res ! i = replicate 3 0)
         \<and> (\<forall>i < nat (k_M call). i \<notin> fst ` set (st_deltas (kern call)) \<longrightarrow> r_deltas res ! i = replicate 2 0)"
proof -
  obtain call mc where al: "march_rays_train_alloc mem inp = Inr (call, mc)" and mc: "0 < mc"
    using amortized_alloc [OF assms] by blast
  note a = alloc_Inr [OF al]
  define res where "res = \<lparr> r_xyzs = apply_stores (st_xyzs (kern call)) (k_xyzs call),
      r_dirs = apply_stores (st_dirs (kern call)) (k_dirs call),
      r_deltas = apply_stores (st_deltas (kern call)) (k_deltas call),
      r_rays = apply_stores (st_rays (kern call)) (k_rays call),
      r_saved_rays = apply_stores (st_rays (kern call)) (k_rays call),
      r_saved_ts = apply_stores (st_ts (kern call)) (k_ts call),
      r_step_counter = apply_stores (st_step_counter (kern call)) (k_step_counter call) \<rparr>"
  have fw: "march_rays_train_forward kern mem inp = Inr res"
    using assms mc by (simp add: march_rays_train_forward_def al seq_def Let_def res_def)
  have "length (r_xyzs res) = nat (k_M call)" "length (r_dirs res) = nat (k_M call)"
       "length (r_deltas res) = nat (k_M call)"
    by (simp_all add: res_def length_apply_stores a)
  moreover have "\<forall>i < nat (k_M call). i \<notin> fst ` set (st_xyzs (kern call)) \<longrightarrow> r_xyzs res ! i = replicate 3 0"
    by (simp add: res_def nth_apply_stores_other a(4))
  moreover have "\<forall>i < nat (k_M call). i \<notin> fst ` set (st_dirs (kern call)) \<longrightarrow> r_dirs res ! i = replicate 3 0"
    by (simp add: res_def nth_apply_stores_other a(5))
  moreover have "\<forall>i < nat (k_M call). i \<notin> fst ` set (st_deltas (kern call)) \<longrightarrow> r_deltas res ! i = replicate 2 0"
    by (simp add: res_def nth_apply_stores_other a(6))
  ultimately show ?thesis using al fw by blast
qed

theorem amortized_rows_untrimmed_witness:
  "result_rows (march_rays_train_forward (demo_kernel 3) demo_mem (demo_input False 10 4 10 None)) = Inr (12, 12, 12)
   \<and> map_sum id r_xyzs (march_rays_train_forward (demo_kernel 3) demo_mem (demo_input False 10 4 10 None))
     = Inr ([[1, 1, 1], [1, 1, 1], [1, 1, 1]] @ replicate 9 [0, 0, 0])"
proof -
  have hyp: "\<not> in_force_all_rays (demo_input False 10 4 10 None)" "0 < in_mean_count (demo_input False 10 4 10 None)"
    by (simp_all add: demo_input_def)
  obtain call mc res where al: "march_rays_train_alloc demo_mem (demo_input False 10 4 10 None) = Inr (call, mc)"
    and fw: "march_rays_train_forward (demo_kernel 3) demo_mem (demo_input False 10 4 10 None) = Inr res"
    and len: "length (r_xyzs res) = nat (k_M call)" "length (r_dirs res) = nat (k_M call)"
         "length (r_deltas res) = nat (k_M call)"
    and z: "\<forall>i < nat (k_M call). i \<notin> fst ` set (st_xyzs (demo_kernel 3 call)) \<longrightarrow> r_xyzs res ! i = replicate 3 0"
    using amortized_rows_untrimmed [OF hyp, of demo_mem "demo_kernel 3"] by blast
  have M: "k_M call = 12"
    using alloc_Inr(1) [OF al] by (simp add: demo_input_def march_rays_train_capacity_def Let_def)
  have w: "fst ` set (st_xyzs (demo_kernel 3 call)) = {0..<3}"
    by (simp add: demo_kernel_def image_image)
  have lo: "r_xyzs res ! i = [1, 1, 1]" if "i < 3" for i
  proof -
    have "Inr res = march_rays_train_forward (demo_kernel 3) demo_mem (demo_input False 10 4 10 None)"
      using fw by simp
    also have "map_sum id (\<lambda>r. take 3 (r_xyzs r)) \<dots> = Inr [[1, 1, 1], [1, 1, 1], [1, 1, 1]]"
      by (simp add: march_rays_train_forward_def march_rays_train_alloc_def
        march_rays_train_capacity_def demo_input_def demo_kernel_def demo_mem_def
        seq_def torch_zeros_def torch_empty_def apply_stores_def Let_def upt_conv_Cons
        eval_nat_numeral)
    finally have "take 3 (r_xyzs res) = [[1, 1, 1], [1, 1, 1], [1, 1, 1]]" by simp
    then have "take 3 (r_xyzs res) ! i = [[1, 1, 1], [1, 1, 1], [1, 1, 1]] ! i" by simp
    then show ?thesis using that by (simp add: nth_Cons split: nat.split)
  qed
  have hi: "r_xyzs res ! i = [0, 0, 0]" if "3 \<le> i" "i < 12" for i
    using z [rule_format, of i] that M w by (simp add: numeral_3_eq_3)
  have "r_xyzs res = [[1, 1, 1], [1, 1, 1], [1, 1, 1]] @ replicate 9 [0, 0, 0]"
  proof (rule nth_equalityI)
    show "length (r_xyzs res) = length ([[1, 1, 1], [1, 1, 1], [1, 1, 1]] @ replicate 9 [0, 0, 0 :: real])"
      using len M by simp
    fix i assume "i < length (r_xyzs res)"
    then have i: "i < 12" using len M by simp
    show "r_xyzs res ! i = ([[1, 1, 1], [1, 1, 1], [1, 1, 1]] @ replicate 9 [0, 0, 0]) ! i"
    proof (cases "i < 3")
      case True
      then show ?thesis using lo [OF True] by (simp add: nth_append nth_Cons split: nat.split)
    next
      case False
      then show ?thesis using hi [of i] i by (simp add: nth_append)
    qed
  qed
  then show ?thesis using len M by (simp add: result_rows_def fw)
qed

subsection \<open>The trimmed outputs of the other path\<close>

text \<open>
  On the other path (\<open>force_all_rays\<close> set, or \<open>mean_count\<close> not positive) a call that
  returns has cut the three outputs with the slice \<^verbatim>\<open>[:m]\<close>, where \<open>m\<close> is the first
  cell of the step counter after the kernel, increased by \<open>align - m mod align\<close> when
  \<open>align\<close> is positive. The slice keeps \<open>min m M\<close> rows.
\<close>

lemma forced_rows_trimmed:
  assumes "in_force_all_rays inp \<or> in_mean_count inp \<le> 0"
      and "march_rays_train_alloc mem inp = Inr (call, mc)"
      and "march_rays_train_forward kern mem inp = Inr res"
  shows "\<exists>m0 rest m.
           apply_stores (st_step_counter (kern call)) (k_step_counter call) = m0 # rest
         \<and> m = (if in_align inp > 0 then m0 + (in_align inp - m0 mod in_align inp) else m0)
         \<and> r_xyzs res = py_slice None (Some m) (apply_stores (st_xyzs (kern call)) (k_xyzs call))
         \<and> r_dirs res = py_slice None (Some m) (apply_stores (st_dirs (kern call)) (k_dirs call))
         \<and> r_deltas res = py_slice None (Some m) (apply_stores (st_deltas (kern call)) (k_deltas call))
         \<and> (0 \<le> m \<longrightarrow> length (r_xyzs res) = min (nat m) (nat (k_M call))
                     \<and> length (r_dirs res) = min (nat m) (nat (k_M call))
                     \<and> length (r_deltas res) = min (nat m) (nat (k_M call)))"
proof -
  note a = alloc_Inr [OF assms(2)]
  have mc: "mc = in_mean_count inp"
    using assms(1) by (auto simp: a(2) march_rays_train_capacity_def Let_def)
  have trim: "in_force_all_rays inp \<or> mc \<le> 0" using assms(1) mc by simp
  obtain m0 rest where sc: "apply_stores (st_step_counter (kern call)) (k_step_counter call) = m0 # rest"
    using assms(3) trim
    by (cases "apply_stores (st_step_counter (kern call)) (k_step_counter call)")
       (auto simp: march_rays_train_forward_def assms(2) seq_def Let_def)
  define m where "m = (if in_align inp > 0 then m0 + (in_align inp - m0 mod in_align inp) else m0)"
  have res: "res = \<lparr> r_xyzs = py_slice None (Some m) (apply_stores (st_xyzs (kern call)) (k_xyzs call)),
                      r_dirs = py_slice None (Some m) (apply_stores (st_dirs (kern call)) (k_dirs call)),
                      r_deltas = py_slice None (Some m) (apply_stores (st_deltas (kern call)) (k_deltas call)),
                      r_rays = apply_stores (st_rays (kern call)) (k_rays call),
                      r_saved_rays = apply_stores (st_rays (kern call)) (k_rays call),
                      r_saved_ts = apply_stores (st_ts (kern call)) (k_ts call),
                      r_step_counter = m0 # rest \<rparr>"
    using assms(3) trim
    by (simp add: march_rays_train_forward_def assms(2) seq_def Let_def sc m_def)
  have "0 \<le> m \<longrightarrow> length (r_xyzs res) = min (nat m) (nat (k_M call))
                     \<and> length (r_dirs res) = min (nat m) (nat (k_M call))
                     \<and> length (r_deltas res) = min (nat m) (nat (k_M call))"
    by (simp add: res length_py_slice_prefix length_apply_stores a)
  then show ?thesis using sc m_def res by (intro exI [of _ m0] exI [of _ rest] exI [of _ m]) simp
qed

lemma py_slice_prefix_take: "0 \<le> m \<Longrightarrow> py_slice None (Some m) xs = take (nat m) xs"
  by (simp add: py_slice_def py_slice_index_def Let_def min_def)

lemma amortized_untrimmed:
  assumes "\<not> in_force_all_rays inp" and "0 < in_mean_count inp"
      and "march_rays_train_alloc mem inp = Inr (call, mc)"
      and "march_rays_train_forward kern mem inp = Inr res"
  shows "r_xyzs res = apply_stores (st_xyzs (kern call)) (k_xyzs call)"
    and "r_dirs res = apply_stores (st_dirs (kern call)) (k_dirs call)"
    and "r_deltas res = apply_stores (st_deltas (kern call)) (k_deltas call)"
proof -
  obtain call' mc' where al: "march_rays_train_alloc mem inp = Inr (call', mc')" and mc: "0 < mc'"
    using amortized_alloc [OF assms(1,2)] by blast
  then have eq: "call' = call" "mc' = mc" using assms(3) by simp_all
  have "res = \<lparr> r_xyzs = apply_stores (st_xyzs (kern call)) (k_xyzs call),
      r_dirs = apply_stores (st_dirs (kern call)) (k_dirs call),
      r_deltas = apply_stores (st_deltas (kern call)) (k_deltas call),
      r_rays = apply_stores (st_rays (kern call)) (k_rays call),
      r_saved_rays = apply_stores (st_rays (kern call)) (k_rays call),
      r_saved_ts = apply_stores (st_ts (kern call)) (k_ts call),
      r_step_counter = apply_stores (st_step_counter (kern call)) (k_step_counter call) \<rparr>"
    using assms(1,4) mc eq by (simp add: march_rays_train_forward_def assms(3) seq_def Let_def)
  then show "r_xyzs res = apply_stores (st_xyzs (kern call)) (k_xyzs call)"
    and "r_dirs res = apply_stores (st_dirs (kern call)) (k_dirs call)"
    and "r_deltas res = apply_stores (st_deltas (kern call)) (k_deltas call)"
    by simp_all
qed

text \<open>
  C5, as the specification words it: on this path the outputs are trimmed to the emitted
  count rounded to a multiple of \<open>align\<close>. One ray, \<open>max_steps = 16\<close>, \<open>align = 4\<close>,
  \<open>force_all_rays\<close> set, and a kernel run that emits 8 samples: the outputs have 12 rows,
  where 8 already is a multiple of 4.
\<close>

theorem march_rays_train_trim_counterexample:
  "result_rows (march_rays_train_forward (demo_kernel 8) demo_mem (demo_input True (- 1) 4 16 None)) = Inr (12, 12, 12)
   \<and> map_sum id r_step_counter (march_rays_train_forward (demo_kernel 8) demo_mem (demo_input True (- 1) 4 16 None)) = Inr [8, 1]
   \<and> spec_round_up 8 4 = 8"
  by (simp add: result_rows_def march_rays_train_forward_def march_rays_train_alloc_def
        march_rays_train_capacity_def demo_input_def demo_kernel_def demo_mem_def
        seq_def torch_zeros_def torch_empty_def apply_stores_def py_slice_def py_slice_index_def Let_def
        length_apply_stores [unfolded apply_stores_def] spec_round_up_def)

text \<open>
  C5, amended. For a call that returns: when \<open>force_all_rays\<close> is set or \<open>mean_count\<close>
  is not positive, the outputs are cut to \<open>m\<close> rows, where \<open>m\<close> is the first cell of the
  step counter after the kernel when \<open>align\<close> is not positive, and that count plus
  \<open>align - count mod align\<close> when it is (the least multiple of \<open>align\<close> strictly above
  the count); this is stated for \<open>0 \<le> m \<le> M\<close>. On the other path the outputs are the
  buffers as the kernel left them, not trimmed.
\<close>

theorem march_rays_train_trim:
  assumes "march_rays_train_alloc mem inp = Inr (call, mc)"
      and "march_rays_train_forward kern mem inp = Inr res"
  shows "(in_force_all_rays inp \<or> in_mean_count inp \<le> 0 \<longrightarrow>
           (\<exists>m0 rest m.
               apply_stores (st_step_counter (kern call)) (k_step_counter call) = m0 # rest
             \<and> m = (if 0 < in_align inp then m0 + (in_align inp - m0 mod in_align inp) else m0)
             \<and> (0 < in_align inp \<longrightarrow> m mod in_align inp = 0 \<and> m0 < m \<and> m \<le> m0 + in_align inp)
             \<and> (0 \<le> m \<and> m \<le> k_M call \<longrightarrow>
                   r_xyzs res = take (nat m) (apply_stores (st_xyzs (kern call)) (k_xyzs call))
                 \<and> r_dirs res = take (nat m) (apply_stores (st_dirs (kern call)) (k_dirs call))
                 \<and> r_deltas res = take (nat m) (apply_stores (st_deltas (kern call)) (k_deltas call))
                 \<and> length (r_xyzs res) = nat m \<and> length (r_dirs res) = nat m
                 \<and> length (r_deltas res) = nat m)))
       \<and> (\<not> in_force_all_rays inp \<and> 0 < in_mean_count inp \<longrightarrow>
             r_xyzs res = apply_stores (st_xyzs (kern call)) (k_xyzs call)
           \<and> r_dirs res = apply_stores (st_dirs (kern call)) (k_dirs call)
           \<and> r_deltas res = apply_stores (st_deltas (kern call)) (k_deltas call))"
proof (intro conjI impI)
  assume forced: "in_force_all_rays inp \<or> in_mean_count inp \<le> 0"
  obtain m0 rest m where sc: "apply_stores (st_step_counter (kern call)) (k_step_counter call) = m0 # rest"
    and m: "m = (if 0 < in_align inp then m0 + (in_align inp - m0 mod in_align inp) else m0)"
    and sl: "r_xyzs res = py_slice None (Some m) (apply_stores (st_xyzs (kern call)) (k_xyzs call))"
            "r_dirs res = py_slice None (Some m) (apply_stores (st_dirs (kern call)) (k_dirs call))"
            "r_deltas res = py_slice None (Some m) (apply_stores (st_deltas (kern call)) (k_deltas call))"
    and ln: "0 \<le> m \<longrightarrow> length (r_xyzs res) = min (nat m) (nat (k_M call))
                     \<and> length (r_dirs res) = min (nat m) (nat (k_M call))
                     \<and> length (r_deltas res) = min (nat m) (nat (k_M call))"
    using forced_rows_trimmed [OF forced assms] by blast
  have al: "0 < in_align inp \<longrightarrow> m mod in_align inp = 0 \<and> m0 < m \<and> m \<le> m0 + in_align inp"
    using pad_bounds [of "in_align inp" m0] by (simp add: m pad_multiple)
  have body: "0 \<le> m \<and> m \<le> k_M call \<longrightarrow>
                   r_xyzs res = take (nat m) (apply_stores (st_xyzs (kern call)) (k_xyzs call))
                 \<and> r_dirs res = take (nat m) (apply_stores (st_dirs (kern call)) (k_dirs call))
                 \<and> r_deltas res = take (nat m) (apply_stores (st_deltas (kern call)) (k_deltas call))
                 \<and> length (r_xyzs res) = nat m \<and> length (r_dirs res) = nat m
                 \<and> length (r_deltas res) = nat m"
  proof (intro impI)
    assume h: "0 \<le> m \<and> m \<le> k_M call"
    note a = alloc_Inr [OF assms(1)]
    have nm: "nat m \<le> nat (k_M call)" using h by (intro nat_mono) blast
    have h0: "0 \<le> m" using h by blast
    have t: "py_slice None (Some m) xs = take (nat m) xs" for xs :: "'a list list"
      by (rule py_slice_prefix_take [OF h0])
    show "r_xyzs res = take (nat m) (apply_stores (st_xyzs (kern call)) (k_xyzs call))
                 \<and> r_dirs res = take (nat m) (apply_stores (st_dirs (kern call)) (k_dirs call))
                 \<and> r_deltas res = take (nat m) (apply_stores (st_deltas (kern call)) (k_deltas call))
                 \<and> length (r_xyzs res) = nat m \<and> length (r_dirs res) = nat m
                 \<and> length (r_deltas res) = nat m"
      unfolding sl t by (simp add: length_apply_stores a(4,5,6) min_absorb2 [OF nm])
  qed
  show "\<exists>m0 rest m.
               apply_stores (st_step_counter (kern call)) (k_step_counter call) = m0 # rest
             \<and> m = (if 0 < in_align inp then m0 + (in_align inp - m0 mod in_align inp) else m0)
             \<and> (0 < in_align inp \<longrightarrow> m mod in_align inp = 0 \<and> m0 < m \<and> m \<le> m0 + in_align inp)
             \<and> (0 \<le> m \<and> m \<le> k_M call \<longrightarrow>
                   r_xyzs res = take (nat m) (apply_stores (st_xyzs (kern call)) (k_xyzs call))
                 \<and> r_dirs res = take (nat m) (apply_stores (st_dirs (kern call)) (k_dirs call))
                 \<and> r_deltas res = take (nat m) (apply_stores (st_deltas (kern call)) (k_deltas call))
                 \<and> length (r_xyzs res) = nat m \<and> length (r_dirs res) = nat m
                 \<and> length (r_deltas res) = nat m)"
    by (rule exI [of _ m0], rule exI [of _ rest], rule exI [of _ m], intro conjI,
        rule sc, rule m, rule al, rule body)
next
  assume a: "\<not> in_force_all_rays inp \<and> 0 < in_mean_count inp"
  then have a1: "\<not> in_force_all_rays inp" and a2: "0 < in_mean_count inp" by blast+
  show "r_xyzs res = apply_stores (st_xyzs (kern call)) (k_xyzs call)"
    by (rule amortized_untrimmed(1) [OF a1 a2 assms])
  show "r_dirs res = apply_stores (st_dirs (kern call)) (k_dirs call)"
    by (rule amortized_untrimmed(2) [OF a1 a2 assms])
  show "r_deltas res = apply_stores (st_deltas (kern call)) (k_deltas call)"
    by (rule amortized_untrimmed(3) [OF a1 a2 assms])
qed

theorem march_rays_train_trim_witness:
  "result_rows (march_rays_train_forward (demo_kernel 5) demo_mem (demo_input True (- 1) 4 16 None)) = Inr (8, 8, 8)
   \<and> result_rows (march_rays_train_forward (demo_kernel 5) demo_mem (demo_input False 10 4 16 None)) = Inr (12, 12, 12)"
proof -
  let ?i1 = "demo_input True (- 1) 4 16 None" and ?i2 = "demo_input False 10 4 16 None"
  obtain c1 m1 where a1: "march_rays_train_alloc demo_mem ?i1 = Inr (c1, m1)"
    by (simp add: march_rays_train_alloc_def march_rays_train_capacity_def demo_input_def
          seq_def torch_zeros_def Let_def)
  obtain c2 m2 where a2: "march_rays_train_alloc demo_mem ?i2 = Inr (c2, m2)"
    by (simp add: march_rays_train_alloc_def march_rays_train_capacity_def demo_input_def
          seq_def torch_zeros_def Let_def)
  have M1: "k_M c1 = 16" and M2: "k_M c2 = 12"
    using alloc_Inr(1) [OF a1] alloc_Inr(1) [OF a2]
    by (simp_all add: demo_input_def march_rays_train_capacity_def Let_def)
  have sc1: "apply_stores (st_step_counter (demo_kernel 5 c1)) (k_step_counter c1) = [5, 1]"
    using a1 by (auto simp: march_rays_train_alloc_def march_rays_train_capacity_def demo_input_def
          seq_def torch_zeros_def Let_def demo_kernel_def apply_stores_def)
  have fr: "in_force_all_rays ?i1" "\<not> in_force_all_rays ?i2" "\<not> m2 \<le> 0"
       "0 < in_mean_count ?i2" "in_align ?i1 = 4"
    using alloc_Inr(2) [OF a2]
    by (simp_all add: demo_input_def march_rays_train_capacity_def Let_def)
  obtain r1 where f1: "march_rays_train_forward (demo_kernel 5) demo_mem ?i1 = Inr r1"
    by (simp add: march_rays_train_forward_def a1 seq_def Let_def sc1 fr(1))
  obtain r2 where f2: "march_rays_train_forward (demo_kernel 5) demo_mem ?i2 = Inr r2"
    by (simp add: march_rays_train_forward_def a2 seq_def Let_def fr(2,3))
  note T1 = march_rays_train_trim [OF a1 f1, THEN conjunct1, THEN mp, OF disjI1, OF fr(1)]
  note T2 = march_rays_train_trim [OF a2 f2, THEN conjunct2, THEN mp, OF conjI, OF fr(2) fr(4)]
  obtain m0 rest m where
        sc: "apply_stores (st_step_counter (demo_kernel 5 c1)) (k_step_counter c1) = m0 # rest"
    and m: "m = (if 0 < in_align ?i1 then m0 + (in_align ?i1 - m0 mod in_align ?i1) else m0)"
    and body: "0 \<le> m \<and> m \<le> k_M c1 \<longrightarrow>
                   r_xyzs r1 = take (nat m) (apply_stores (st_xyzs (demo_kernel 5 c1)) (k_xyzs c1))
                 \<and> r_dirs r1 = take (nat m) (apply_stores (st_dirs (demo_kernel 5 c1)) (k_dirs c1))
                 \<and> r_deltas r1 = take (nat m) (apply_stores (st_deltas (demo_kernel 5 c1)) (k_deltas c1))
                 \<and> length (r_xyzs r1) = nat m \<and> length (r_dirs r1) = nat m
                 \<and> length (r_deltas r1) = nat m"
    using T1 by (elim exE conjE)
  have "m0 = 5" using sc sc1 by simp
  then have m8: "m = 8" by (simp add: m fr(5))
  then have pre: "0 \<le> m \<and> m \<le> k_M c1" using M1 by simp
  have L: "length (r_xyzs r1) = nat m" "length (r_dirs r1) = nat m" "length (r_deltas r1) = nat m"
    using body pre by blast+
  have l1: "length (r_xyzs r1) = 8 \<and> length (r_dirs r1) = 8 \<and> length (r_deltas r1) = 8"
    unfolding L m8 by simp
  have l2: "length (r_xyzs r2) = 12 \<and> length (r_dirs r2) = 12 \<and> length (r_deltas r2) = 12"
    using T2 alloc_Inr(4,5,6) [OF a2] by (simp add: length_apply_stores M2)
  show ?thesis using l1 l2 by (simp add: result_rows_def f1 f2)
qed

text \<open>
  Beyond the capacity the slice does not give \<open>m\<close> rows. One ray, \<open>max_steps = 10\<close>,
  \<open>align = 4\<close>, \<open>force_all_rays\<close> set: the buffers have 10 rows. The kernel emits 9
  samples, so the counter reads 9 and \<open>m\<close> is 12. The slice \<^verbatim>\<open>xyzs[:12]\<close> of a tensor of
  10 rows has 10 rows, which is not a multiple of \<open>align\<close>, as the docstring of \<open>align\<close>
  has it (\<^verbatim>\<open>pad output so its size is dividable by align\<close>).
\<close>

lemma trim_not_aligned:
  "result_rows (march_rays_train_forward (demo_kernel 9) demo_mem (demo_input True (-1) 4 10 None)) = Inr (10, 10, 10)
   \<and> map_sum id r_step_counter (march_rays_train_forward (demo_kernel 9) demo_mem (demo_input True (-1) 4 10 None)) = Inr [9, 1]
   \<and> (9::int) + (4 - 9 mod 4) = 12"
  by (simp add: result_rows_def march_rays_train_forward_def march_rays_train_alloc_def
        march_rays_train_capacity_def demo_input_def demo_kernel_def demo_mem_def
        seq_def torch_zeros_def torch_empty_def apply_stores_def py_slice_def py_slice_index_def Let_def
        length_apply_stores [unfolded apply_stores_def])

subsection \<open>The chunk buffers of the inference marcher\<close>

lemma march_rays_Inr:
  assumes "march_rays_forward kern inp = Inr (xyzs, dirs, deltas)"
  shows "0 \<le> (if m_align inp > 0 then m_n_alive inp * m_n_step inp + (m_align inp - (m_n_alive inp * m_n_step inp) mod m_align inp) else m_n_alive inp * m_n_step inp)"
   and "int (length xyzs) = (if m_align inp > 0 then m_n_alive inp * m_n_step inp + (m_align inp - (m_n_alive inp * m_n_step inp) mod m_align inp) else m_n_alive inp * m_n_step inp)"
   and "length dirs = length xyzs" and "length deltas = length xyzs"
  using assms
  by (auto simp: march_rays_forward_def Let_def seq_def torch_zeros_def length_apply_stores
           split: if_splits)

text \<open>
  C8, as the specification words it: with \<open>align > 0\<close> the buffers have
  \<open>n_alive * n_step\<close> rows padded up to a multiple of \<open>align\<close>. At \<open>n_alive = 2\<close>,
  \<open>n_step = 4\<close>, \<open>align = 4\<close> the wrapper returns 12 rows, where 8 rows already are a
  multiple of 4.
\<close>

theorem march_rays_rows_counterexample:
  "march_rows (march_rays_forward idle_kernel (demo_march_input 2 4 4)) = Inr (12, 12, 12)
   \<and> spec_round_up (2 * 4) 4 = 8"
  by (simp add: march_rows_def march_rays_forward_def demo_march_input_def idle_kernel_def
        seq_def torch_zeros_def apply_stores_def spec_round_up_def Let_def)

text \<open>
  C8, amended. The three returned buffers have the same number of rows:
  \<open>n_alive * n_step\<close> when \<open>align\<close> is not positive, and
  \<open>n_alive * n_step + (align - (n_alive * n_step) mod align)\<close> when it is, the least
  multiple of \<open>align\<close> strictly above \<open>n_alive * n_step\<close>.
\<close>

theorem march_rays_rows:
  assumes "march_rays_forward kern inp = Inr (xyzs, dirs, deltas)"
  shows "length dirs = length xyzs \<and> length deltas = length xyzs
       \<and> (m_align inp \<le> 0 \<longrightarrow> int (length xyzs) = m_n_alive inp * m_n_step inp)
       \<and> (0 < m_align inp \<longrightarrow>
            int (length xyzs) = m_n_alive inp * m_n_step inp
               + (m_align inp - (m_n_alive inp * m_n_step inp) mod m_align inp)
            \<and> int (length xyzs) mod m_align inp = 0
            \<and> m_n_alive inp * m_n_step inp < int (length xyzs)
            \<and> int (length xyzs) \<le> m_n_alive inp * m_n_step inp + m_align inp)"
proof -
  note a = march_rays_Inr [OF assms]
  have "m_align inp \<le> 0 \<longrightarrow> int (length xyzs) = m_n_alive inp * m_n_step inp"
    using a(2) by simp
  moreover have "0 < m_align inp \<longrightarrow>
            int (length xyzs) = m_n_alive inp * m_n_step inp
               + (m_align inp - (m_n_alive inp * m_n_step inp) mod m_align inp)
            \<and> int (length xyzs) mod m_align inp = 0
            \<and> m_n_alive inp * m_n_step inp < int (length xyzs)
            \<and> int (length xyzs) \<le> m_n_alive inp * m_n_step inp + m_align inp"
    using a(2) pad_bounds [of "m_align inp" "m_n_alive inp * m_n_step inp"]
    by (simp add: pad_multiple)
  ultimately show ?thesis using a(3,4) by blast
qed

theorem march_rays_rows_witness:
  "march_rows (march_rays_forward idle_kernel (demo_march_input 2 5 (-1))) = Inr (10, 10, 10)
   \<and> march_rows (march_rays_forward idle_kernel (demo_march_input 2 5 4)) = Inr (12, 12, 12)"
proof -
  obtain x1 d1 e1 where r1: "march_rays_forward idle_kernel (demo_march_input 2 5 (-1)) = Inr (x1, d1, e1)"
    by (simp add: march_rays_forward_def demo_march_input_def seq_def torch_zeros_def Let_def)
  obtain x2 d2 e2 where r2: "march_rays_forward idle_kernel (demo_march_input 2 5 4) = Inr (x2, d2, e2)"
    by (simp add: march_rays_forward_def demo_march_input_def seq_def torch_zeros_def Let_def)
  have "length x1 = 10 \<and> length d1 = 10 \<and> length e1 = 10"
    using march_rays_rows [OF r1] by (simp add: demo_march_input_def)
  moreover have "length x2 = 12 \<and> length d2 = 12 \<and> length e2 = 12"
    using march_rays_rows [OF r2] by (simp add: demo_march_input_def)
  ultimately show ?thesis by (simp add: march_rows_def r1 r2)
qed

subsection \<open>The backward pass of the training compositor\<close>

text \<open>
  C3. With the saved tensors and the gradients on \<open>weights_sum\<close> and \<open>image\<close> fixed, the
  returned \<open>grad_sigmas\<close> and \<open>grad_rgbs\<close> are the same for any two gradients on
  \<open>depth\<close>, whatever the kernel computes: the wrapper never hands \<open>grad_depth\<close> to it.
\<close>

theorem composite_backward_ignores_grad_depth:
  "composite_rays_train_backward kern ctx grad_weights_sum grad_depth grad_image
   = composite_rays_train_backward kern ctx grad_weights_sum grad_depth' grad_image"
  by (simp add: composite_rays_train_backward_def)

subsection \<open>The backward pass of the training marcher\<close>

text \<open>
  For rays of shape \<open>[N, 3]\<close> the backward pass raises before it sums anything.
  \<^verbatim>\<open>rays[-1:2]\<close> is a slice of rows, of shape \<open>[1, 3]\<close> or \<open>[0, 3]\<close>; added to
  \<^verbatim>\<open>rays[-1:, 1]\<close> it gives a matrix, which \<^verbatim>\<open>torch.cat\<close> cannot join to the vector
  \<^verbatim>\<open>rays[:, 1]\<close>. Without rays the sum itself fails, on the sizes 0 and 3.
\<close>

lemma march_rays_train_backward_raises:
  "march_rays_train_backward (Mat 3 rows) ts dL_dxyzs dL_ddirs = Inl RuntimeError"
proof (cases "rows = []")
  case True
  then show ?thesis
    by (simp add: march_rays_train_backward_def seq_def py_slice_def py_slice_index_def bc_dim_def)
next
  case False
  then have n: "0 < length rows" by simp
  have l: "length (py_slice (Some (- 1)) None rows) = 1"
    using False by (cases rows) (simp_all add: py_slice_def py_slice_index_def Let_def)
  show ?thesis
    using False l
    by (simp add: march_rays_train_backward_def seq_def bc_dim_def Let_def)
qed

text \<open>
  C1, at an input where the code leaves the claim: three rays with the segments
  \<open>(0, 2)\<close>, \<open>(2, 1)\<close>, \<open>(3, 2)\<close> over five samples. The claim gives
  \<open>d_origin = [[1, 1, 0], [0, 0, 1], [1, 2, 1]]\<close>; the code raises.
\<close>

theorem march_rays_train_backward_fails:
  "march_rays_train_backward (Mat 3 [[0, 0, 2], [1, 2, 1], [2, 3, 2]])
      (Mat 1 [[1], [2], [3], [4], [5 :: real]])
      (Mat 3 [[1, 0, 0], [0, 1, 0], [0, 0, 1], [1, 1, 0], [0, 1, 1]])
      (Mat 3 [[0, 0, 0], [0, 0, 0], [0, 0, 0], [0, 0, 0], [0, 0, 0]])
   = Inl RuntimeError"
  by (simp add: march_rays_train_backward_def seq_def py_slice_def py_slice_index_def bc_dim_def)

subsection \<open>The backward pass of the box intersection\<close>

lemmas near_far_eval = near_far_from_aabb_backward_def get_indicator_def seq_def bc_dim_def bc_row_def
  unit_cube_def Let_def upt_conv_Cons

text \<open>
  A ray that is oblique to the box: the first ray enters through \<open>xmin\<close> (index 0) and
  leaves through \<open>ymax\<close> (index 4), the second misses. The gradients are those of C2:
  \<open>-1/d\<close> and \<open>(o - plane)/d\<^sup>2\<close> on the axis of each bound, zero elsewhere and zero
  for the ray that misses.
\<close>

lemma near_far_backward_oblique:
  "near_far_from_aabb_backward unit_cube
      [[Fin (- 2), Fin 0, Fin 0], [Fin 2, Fin 0, Fin 0]]
      [[Fin 2, Fin 1, Fin 1], [Fin 2, Fin 1, Fin 1]]
      [0, 255] [4, 255] [Fin 1, Fin 1] [Fin 1, Fin 1]
   = Inr (Mat 3 [[Fin (- 1 / 2), Fin (- 1), Fin 0], [Fin 0, Fin 0, Fin 0]],
          Mat 3 [[Fin (- 1 / 4), Fin (- 1), Fin 0], [Fin 0, Fin 0, Fin 0]])"
  by (simp add: near_far_eval)

text \<open>
  C2, at an input where the code leaves the claim: the two rays of the end-to-end scenario
  of the specification, both along the x axis. The first hits (\<open>xmin\<close>, \<open>xmax\<close>), the
  second misses (255). On the y and z axes the code divides \<open>0 * -1\<close> by the direction
  component 0, and the origin component by its square: the gradients there are NaN, for
  the ray that hits and for the ray that misses, where the claim has zero.
\<close>

theorem near_far_backward_axis_aligned:
  "near_far_from_aabb_backward unit_cube
      [[Fin (- 2), Fin 0, Fin 0], [Fin 2, Fin 0, Fin 0]]
      [[Fin 1, Fin 0, Fin 0], [Fin 1, Fin 0, Fin 0]]
      [0, 255] [3, 255] [Fin 1, Fin 1] [Fin 1, Fin 1]
   = Inr (Mat 3 [[Fin (- 2), NonFinite, NonFinite], [Fin 0, NonFinite, NonFinite]],
          Mat 3 [[Fin (- 4), NonFinite, NonFinite], [Fin 0, NonFinite, NonFinite]])"
  by (simp add: near_far_eval)

subsection \<open>Morton codes\<close>

declare interleave3.simps [simp del] deinterleave3.simps [simp del]

lemma interleave3_zero [simp]: "interleave3 0 0 0 = 0"
  by (simp add: interleave3.simps)

lemma deinterleave3_zero [simp]: "deinterleave3 0 = (0, 0, 0)"
  by (simp add: deinterleave3.simps)

lemma interleave3_step:
  "interleave3 x y z = x mod 2 + 2 * (y mod 2) + 4 * (z mod 2) + 8 * interleave3 (x div 2) (y div 2) (z div 2)"
  by (subst interleave3.simps) auto

lemma deinterleave3_step:
  "i \<noteq> 0 \<Longrightarrow> deinterleave3 (i div 8) = (x, y, z) \<Longrightarrow>
   deinterleave3 i = (i mod 2 + 2 * x, i div 2 mod 2 + 2 * y, i div 4 mod 2 + 2 * z)"
  by (subst deinterleave3.simps) simp

lemma low_bit:
  fixes a k :: nat
  assumes "a < 2"
  shows "(a + 2 * k) mod 2 = a" and "(a + 2 * k) div 2 = k"
  using assms by simp_all

lemma bits_of_sum:
  fixes a b c m :: nat
  assumes "a < 2" "b < 2" "c < 2"
  shows "(a + 2 * b + 4 * c + 8 * m) mod 2 = a"
    and "(a + 2 * b + 4 * c + 8 * m) div 2 mod 2 = b"
    and "(a + 2 * b + 4 * c + 8 * m) div 4 mod 2 = c"
    and "(a + 2 * b + 4 * c + 8 * m) div 8 = m"
proof -
  let ?e = "a + 2 * b + 4 * c + 8 * m"
  have e: "?e = a + 2 * (b + 2 * (c + 2 * m))" by simp
  have q: "?e div 4 = ?e div 2 div 2" "?e div 8 = ?e div 2 div 2 div 2"
    by (simp_all only: div_mult2_eq [symmetric]) simp_all
  have h1: "?e div 2 = b + 2 * (c + 2 * m)"
    unfolding e by (rule low_bit(2) [OF assms(1)])
  have h2: "?e div 2 div 2 = c + 2 * m"
    unfolding h1 by (rule low_bit(2) [OF assms(2)])
  show "?e mod 2 = a" unfolding e by (rule low_bit(1) [OF assms(1)])
  show "?e div 2 mod 2 = b" unfolding h1 by (rule low_bit(1) [OF assms(2)])
  show "?e div 4 mod 2 = c" unfolding q(1) h2 by (rule low_bit(1) [OF assms(3)])
  show "?e div 8 = m" unfolding q(2) h2 by (rule low_bit(2) [OF assms(3)])
qed

lemma sum_of_bits: "i mod 2 + 2 * (i div 2 mod 2) + 4 * (i div 4 mod 2) + 8 * (i div 8) = (i::nat)"
proof -
  have q: "i div 4 = i div 2 div 2" "i div 8 = i div 4 div 2"
    by (simp_all add: div_mult2_eq [symmetric])
  have "i = i mod 2 + 2 * (i div 2)" by simp
  moreover have "i div 2 = i div 2 mod 2 + 2 * (i div 4)" unfolding q by simp
  moreover have "i div 4 = i div 4 mod 2 + 2 * (i div 8)" unfolding q(2) by simp
  ultimately show ?thesis by linarith
qed

lemma half_zero: "x div 2 = 0 \<Longrightarrow> x mod 2 = 0 \<Longrightarrow> x = (0::nat)"
  using div_mult_mod_eq [of x 2] by simp

lemma interleave3_eq_0_iff: "interleave3 x y z = 0 \<longleftrightarrow> x = 0 \<and> y = 0 \<and> z = 0"
proof (induction x y z rule: interleave3.induct)
  case (1 x y z)
  show ?case
  proof (cases "x = 0 \<and> y = 0 \<and> z = 0")
    case True
    then show ?thesis by simp
  next
    case False
    define m where "m = interleave3 (x div 2) (y div 2) (z div 2)"
    have ih: "m = 0 \<longleftrightarrow> x div 2 = 0 \<and> y div 2 = 0 \<and> z div 2 = 0"
      unfolding m_def by (rule "1.IH" [OF False])
    have st: "interleave3 x y z = x mod 2 + 2 * (y mod 2) + 4 * (z mod 2) + 8 * m"
      unfolding m_def by (rule interleave3_step)
    have "interleave3 x y z \<noteq> 0"
    proof
      assume "interleave3 x y z = 0"
      then have s: "x mod 2 + 2 * (y mod 2) + 4 * (z mod 2) + 8 * m = 0"
        unfolding st .
      have md: "x mod 2 = 0" "y mod 2 = 0" "z mod 2 = 0" and m0: "m = 0"
        using s by linarith+
      have dv: "x div 2 = 0" "y div 2 = 0" "z div 2 = 0"
        using ih m0 by blast+
      have "x = 0" "y = 0" "z = 0"
        by (rule half_zero [OF dv(1) md(1)], rule half_zero [OF dv(2) md(2)],
            rule half_zero [OF dv(3) md(3)])
      then show False using False by blast
    qed
    then show ?thesis using False by blast
  qed
qed

lemma interleave3_roundtrip: "deinterleave3 (interleave3 x y z) = (x, y, z)"
proof (induction x y z rule: interleave3.induct)
  case (1 x y z)
  show ?case
  proof (cases "x = 0 \<and> y = 0 \<and> z = 0")
    case True
    then show ?thesis by simp
  next
    case False
    define m where "m = interleave3 (x div 2) (y div 2) (z div 2)"
    define e where "e = x mod 2 + 2 * (y mod 2) + 4 * (z mod 2) + 8 * m"
    have e: "interleave3 x y z = e" unfolding e_def m_def by (rule interleave3_step)
    have ne: "e \<noteq> 0" using False interleave3_eq_0_iff [of x y z] e by simp
    have lt: "x mod 2 < 2" "y mod 2 < 2" "z mod 2 < 2" by simp_all
    have b: "e mod 2 = x mod 2" "e div 2 mod 2 = y mod 2" "e div 4 mod 2 = z mod 2" "e div 8 = m"
      unfolding e_def by (rule bits_of_sum [OF lt])+
    have ih: "deinterleave3 (e div 8) = (x div 2, y div 2, z div 2)"
      unfolding b(4) m_def using "1.IH" [OF False] .
    have "deinterleave3 e = (e mod 2 + 2 * (x div 2), e div 2 mod 2 + 2 * (y div 2), e div 4 mod 2 + 2 * (z div 2))"
      by (rule deinterleave3_step [OF ne ih])
    then show ?thesis unfolding e b by simp
  qed
qed


lemma deinterleave3_roundtrip: "deinterleave3 i = (x, y, z) \<Longrightarrow> interleave3 x y z = i"
proof (induction i arbitrary: x y z rule: deinterleave3.induct)
  case (1 i)
  show ?case
  proof (cases "i = 0")
    case True
    then show ?thesis using "1.prems" by simp
  next
    case False
    obtain x' y' z' where d: "deinterleave3 (i div 8) = (x', y', z')" by (metis prod_cases3)
    have ih: "interleave3 x' y' z' = i div 8" by (rule "1.IH" [OF False d])
    have inv: "deinterleave3 i = (i mod 2 + 2 * x', i div 2 mod 2 + 2 * y', i div 4 mod 2 + 2 * z')"
      by (rule deinterleave3_step [OF False d])
    have xyz: "x = i mod 2 + 2 * x'" "y = i div 2 mod 2 + 2 * y'" "z = i div 4 mod 2 + 2 * z'"
      using inv "1.prems" by simp_all
    have lt: "i mod 2 < 2" "i div 2 mod 2 < 2" "i div 4 mod 2 < 2" by simp_all
    have "interleave3 (i mod 2 + 2 * x') (i div 2 mod 2 + 2 * y') (i div 4 mod 2 + 2 * z')
          = i mod 2 + 2 * (i div 2 mod 2) + 4 * (i div 4 mod 2) + 8 * interleave3 x' y' z'"
      by (subst interleave3_step) (simp add: low_bit [OF lt(1)] low_bit [OF lt(2)] low_bit [OF lt(3)])
    also have "\<dots> = i" unfolding ih by (rule sum_of_bits)
    finally show ?thesis unfolding xyz .
  qed
qed

lemma interleave3_bound:
  "x < 2 ^ k \<Longrightarrow> y < 2 ^ k \<Longrightarrow> z < 2 ^ k \<Longrightarrow> interleave3 x y z < 8 ^ k"
proof (induction k arbitrary: x y z)
  case 0
  then show ?case by simp
next
  case (Suc k)
  have "x div 2 < 2 ^ k" "y div 2 < 2 ^ k" "z div 2 < 2 ^ k"
    using Suc.prems by auto
  then have "interleave3 (x div 2) (y div 2) (z div 2) < 8 ^ k" by (rule Suc.IH)
  moreover have "x mod 2 \<le> 1" "y mod 2 \<le> 1" "z mod 2 \<le> 1" by simp_all
  ultimately have "x mod 2 + 2 * (y mod 2) + 4 * (z mod 2) + 8 * interleave3 (x div 2) (y div 2) (z div 2) < 8 * 8 ^ k"
    by linarith
  then show ?case
    using interleave3_step [of x y z] by simp
qed

lemma deinterleave3_bound:
  "i < 8 ^ k \<Longrightarrow> deinterleave3 i = (x, y, z) \<Longrightarrow> x < 2 ^ k \<and> y < 2 ^ k \<and> z < 2 ^ k"
proof (induction k arbitrary: i x y z)
  case 0
  then show ?case by simp
next
  case (Suc k)
  show ?case
  proof (cases "i = 0")
    case True
    then show ?thesis using Suc.prems by simp
  next
    case False
    obtain x' y' z' where d: "deinterleave3 (i div 8) = (x', y', z')" by (metis prod_cases3)
    have "i div 8 < 8 ^ k" using Suc.prems(1) by simp
    then have b: "x' < 2 ^ k \<and> y' < 2 ^ k \<and> z' < 2 ^ k" using d by (rule Suc.IH)
    have inv: "deinterleave3 i = (i mod 2 + 2 * x', i div 2 mod 2 + 2 * y', i div 4 mod 2 + 2 * z')"
      by (rule deinterleave3_step [OF False d])
    have xyz: "x = i mod 2 + 2 * x'" "y = i div 2 mod 2 + 2 * y'" "z = i div 4 mod 2 + 2 * z'"
      using inv Suc.prems(2) by simp_all
    have lt: "i mod 2 \<le> 1" "i div 2 mod 2 \<le> 1" "i div 4 mod 2 \<le> 1" by simp_all
    have "i mod 2 + 2 * x' < 2 * 2 ^ k" "i div 2 mod 2 + 2 * y' < 2 * 2 ^ k" "i div 4 mod 2 + 2 * z' < 2 * 2 ^ k"
      using b lt by linarith+
    then show ?thesis unfolding xyz by simp
  qed
qed

lemma cube_pow2: "((2::nat) ^ k) ^ 3 = 8 ^ k"
proof -
  have "(8::nat) ^ k = (2 ^ 3) ^ k" by simp
  also have "\<dots> = 2 ^ (3 * k)" by (simp only: power_mult)
  also have "\<dots> = 2 ^ (k * 3)" by (simp only: mult.commute)
  also have "\<dots> = (2 ^ k) ^ 3" by (simp only: power_mult)
  finally show ?thesis by simp
qed

lemma unat_word_of_nat_small: "n < 2 ^ 32 \<Longrightarrow> unat (word_of_nat n :: 32 word) = n"
  by (simp add: unat_of_nat)

lemma morton3D_unat:
  assumes "k \<le> 10" and "unat x < 2 ^ k" and "unat y < 2 ^ k" and "unat z < 2 ^ k"
  shows "unat (morton3D x y z) = interleave3 (unat x) (unat y) (unat z)"
    and "unat (morton3D x y z) < 8 ^ k"
proof -
  let ?c = "interleave3 (unat x) (unat y) (unat z)"
  have c: "?c < 8 ^ k" using assms(2,3,4) by (rule interleave3_bound)
  have "(8::nat) ^ k \<le> 8 ^ 10" using assms(1) by (intro power_increasing) simp_all
  then have "?c < 2 ^ 32" using c by simp
  then show u: "unat (morton3D x y z) = ?c"
    unfolding morton3D_def by (rule unat_word_of_nat_small)
  show "unat (morton3D x y z) < 8 ^ k" unfolding u by (rule c)
qed

lemma morton3D_roundtrip:
  assumes "unat x < 1024" and "unat y < 1024" and "unat z < 1024"
  shows "morton3D_invert (morton3D x y z) = (x, y, z)"
proof -
  have u: "unat (morton3D x y z) = interleave3 (unat x) (unat y) (unat z)"
    using assms by (intro morton3D_unat(1) [of 10]) simp_all
  show ?thesis
    by (simp add: morton3D_invert_def u interleave3_roundtrip)
qed

lemma morton3D_invert_in_grid:
  assumes "k \<le> 10" and "unat i < 8 ^ k"
  shows "morton3D_invert i \<in> grid_coords (2 ^ k)" and "morton3D_of (morton3D_invert i) = i"
proof -
  obtain a b c where d: "deinterleave3 (unat i) = (a, b, c)" by (metis prod_cases3)
  have b: "a < 2 ^ k \<and> b < 2 ^ k \<and> c < 2 ^ k" using assms(2) d by (rule deinterleave3_bound)
  have "(2::nat) ^ k \<le> 2 ^ 10" using assms(1) by (intro power_increasing) simp_all
  then have s: "a < 2 ^ 32" "b < 2 ^ 32" "c < 2 ^ 32" using b by simp_all
  have inv: "morton3D_invert i = (word_of_nat a, word_of_nat b, word_of_nat c)"
    by (simp add: morton3D_invert_def d)
  have un: "unat (word_of_nat a :: 32 word) = a" "unat (word_of_nat b :: 32 word) = b"
       "unat (word_of_nat c :: 32 word) = c"
    using s by (simp_all add: unat_word_of_nat_small)
  show "morton3D_invert i \<in> grid_coords (2 ^ k)"
    using b by (simp add: inv grid_coords_def un)
  have "interleave3 a b c = unat i" using d by (rule deinterleave3_roundtrip)
  then show "morton3D_of (morton3D_invert i) = i"
    by (simp add: inv morton3D_of_def morton3D_def un)
qed

lemma morton3D_bij_pow2:
  assumes "k \<le> 10"
  shows "bij_betw morton3D_of (grid_coords (2 ^ k)) (grid_codes (2 ^ k))"
proof (rule bij_betw_byWitness [where f' = morton3D_invert])
  have le: "(2::nat) ^ k \<le> 1024"
    using power_increasing [OF assms, of "2::nat"] by simp
  show "\<forall>c\<in>grid_coords (2 ^ k). morton3D_invert (morton3D_of c) = c"
    using le by (auto simp: grid_coords_def morton3D_of_def intro!: morton3D_roundtrip)
  show "\<forall>i\<in>grid_codes (2 ^ k). morton3D_of (morton3D_invert i) = i"
    using morton3D_invert_in_grid(2) [OF assms] by (simp add: grid_codes_def cube_pow2)
  show "morton3D_of ` grid_coords (2 ^ k) \<subseteq> grid_codes (2 ^ k)"
    using morton3D_unat(2) [OF assms]
    by (auto simp: grid_coords_def grid_codes_def morton3D_of_def cube_pow2)
  show "morton3D_invert ` grid_codes (2 ^ k) \<subseteq> grid_coords (2 ^ k)"
    using morton3D_invert_in_grid(1) [OF assms] by (auto simp: grid_codes_def cube_pow2)
qed

lemma morton3D_forward_roundtrip:
  assumes "\<forall>c\<in>set coords. length c = 3 \<and> (\<forall>v\<in>set c. unat v < 1024)"
  shows "morton3D_invert_forward (morton3D_forward coords) = coords"
proof -
  have "(case morton3D_invert (morton3D (c ! 0) (c ! 1) (c ! 2)) of (x, y, z) \<Rightarrow> [x, y, z]) = c"
    if c: "c \<in> set coords" for c
  proof -
    have l: "length c = 3" and b: "\<forall>v\<in>set c. unat v < 1024" using assms c by blast+
    have e: "[c ! 0, c ! 1, c ! 2] = c"
      using l by (auto simp: list_eq_iff_nth_eq numeral_3_eq_3 numeral_2_eq_2 less_Suc_eq)
    have "unat (c ! 0) < 1024" "unat (c ! 1) < 1024" "unat (c ! 2) < 1024"
      using b l by (simp_all add: numeral_3_eq_3)
    then have "morton3D_invert (morton3D (c ! 0) (c ! 1) (c ! 2)) = (c ! 0, c ! 1, c ! 2)"
      by (rule morton3D_roundtrip)
    then show ?thesis using e by simp
  qed
  then show ?thesis
    by (simp add: morton3D_forward_def morton3D_invert_forward_def map_idI)
qed

text \<open>
  C6, as the specification words it: for every \<open>H\<close>, decoding gives the coordinates back
  and \<open>morton3D\<close> is a bijection from \<open>[0,H)\<^sup>3\<close> onto \<open>[0,H\<^sup>3)\<close>. For the even
  resolution \<open>H = 6\<close> the cell \<open>(4, 4, 4)\<close> has the code 448, which is not below
  \<open>6\<^sup>3 = 216\<close>. For \<open>H = 2048\<close> the cells do not fit 32 bits (\<open>2048\<^sup>3 = 2\<^sup>3\<^sup>3\<close>):
  the cell \<open>(0, 0, 1024)\<close> has the code 0 and decodes to \<open>(0, 0, 0)\<close>.
\<close>

theorem morton3D_range_counterexample:
  "(4, 4, 4) \<in> grid_coords 6 \<and> morton3D_of (4, 4, 4) = 448
   \<and> \<not> bij_betw morton3D_of (grid_coords 6) (grid_codes 6)
   \<and> (0, 0, 1024) \<in> grid_coords 2048
   \<and> morton3D_invert (morton3D 0 0 1024) = (0, 0, 0)"
proof -
  have m: "(4, 4, 4) \<in> grid_coords 6" by (simp add: grid_coords_def)
  have v: "morton3D_of (4, 4, 4) = 448"
    by (simp add: morton3D_of_def morton3D_def interleave3.simps)
  have nb: "\<not> bij_betw morton3D_of (grid_coords 6) (grid_codes 6)"
  proof
    assume "bij_betw morton3D_of (grid_coords 6) (grid_codes 6)"
    then have "morton3D_of (4, 4, 4) \<in> grid_codes 6"
      using m by (metis bij_betw_apply)
    then show False unfolding v by (simp add: grid_codes_def)
  qed
  have m2: "(0, 0, 1024) \<in> grid_coords 2048" by (simp add: grid_coords_def)
  have "interleave3 0 0 1024 = 4294967296" by (simp add: interleave3.simps)
  then have "morton3D 0 0 1024 = 0" by (simp add: morton3D_def)
  then have c: "morton3D_invert (morton3D 0 0 1024) = (0, 0, 0)"
    by (simp add: morton3D_invert_def)
  show ?thesis using m v nb m2 c by blast
qed

text \<open>
  C6, amended. For every resolution \<open>H \<le> 1024\<close> and every valid coordinate triple in
  \<open>[0,H)\<^sup>3\<close>, decoding the code gives the triple back; and when the resolution is a
  power of two, \<open>H = 2\<^sup>k\<close> with \<open>k \<le> 10\<close>, \<open>morton3D\<close> is a bijection from
  \<open>[0,H)\<^sup>3\<close> onto \<open>[0,H\<^sup>3)\<close>.
\<close>

theorem morton3D_bijective:
  "(H \<le> 1024 \<and> (x, y, z) \<in> grid_coords H \<longrightarrow> morton3D_invert (morton3D x y z) = (x, y, z))
   \<and> (k \<le> 10 \<longrightarrow> bij_betw morton3D_of (grid_coords (2 ^ k)) (grid_codes (2 ^ k)))"
proof (intro conjI impI)
  assume a: "H \<le> 1024 \<and> (x, y, z) \<in> grid_coords H"
  then have "unat x < 1024" "unat y < 1024" "unat z < 1024"
    by (simp_all add: grid_coords_def)
  then show "morton3D_invert (morton3D x y z) = (x, y, z)" by (rule morton3D_roundtrip)
next
  assume "k \<le> 10"
  then show "bij_betw morton3D_of (grid_coords (2 ^ k)) (grid_codes (2 ^ k))"
    by (rule morton3D_bij_pow2)
qed

theorem morton3D_bijective_witness:
  "morton3D_invert (morton3D 5 100 127) = (5, 100, 127)
   \<and> bij_betw morton3D_of (grid_coords 128) (grid_codes 128)"
proof -
  have h: "(128::nat) \<le> 1024 \<and> (5, 100, 127) \<in> grid_coords 128" "(7::nat) \<le> 10"
    by (simp_all add: grid_coords_def)
  have p: "(2::nat) ^ 7 = 128" by simp
  show ?thesis
    using morton3D_bijective [of 128 5 100 127 7] h unfolding p by blast
qed

subsection \<open>The packed occupancy bits\<close>

lemma apply_stores_tabulate:
  "N \<le> length buf \<Longrightarrow> apply_stores (map (\<lambda>n. (n, f n)) [0..<N]) buf = map f [0..<N] @ drop N buf"
proof (induction N)
  case 0
  then show ?case by (simp add: apply_stores_def)
next
  case (Suc N)
  then have ih: "apply_stores (map (\<lambda>n. (n, f n)) [0..<N]) buf = map f [0..<N] @ drop N buf"
    and lt: "N < length buf" by simp_all
  have "apply_stores (map (\<lambda>n. (n, f n)) [0..<Suc N]) buf
        = (apply_stores (map (\<lambda>n. (n, f n)) [0..<N]) buf)[N := f N]"
    by (simp add: apply_stores_def)
  also have "\<dots> = (map f [0..<N] @ drop N buf)[N := f N]" by (simp only: ih)
  also have "\<dots> = map f [0..<N] @ (drop N buf)[0 := f N]"
    by (simp add: list_update_append)
  also have "(drop N buf)[0 := f N] = f N # drop (Suc N) buf"
    using lt by (simp add: Cons_nth_drop_Suc [symmetric])
  finally show ?case by simp
qed

lemma nth_concat_uniform:
  "\<forall>r\<in>set rows. length r = w \<Longrightarrow> c < length rows \<Longrightarrow> i < w \<Longrightarrow>
   concat rows ! (c * w + i) = rows ! c ! i"
proof (induction rows arbitrary: c)
  case Nil
  then show ?case by simp
next
  case (Cons r rows)
  show ?case
  proof (cases c)
    case 0
    then show ?thesis using Cons.prems by (simp add: nth_append)
  next
    case (Suc c')
    have "concat (r # rows) ! (c * w + i) = concat rows ! (c' * w + i)"
      using Cons.prems Suc by (simp add: nth_append)
    then show ?thesis using Cons.IH [of c'] Cons.prems Suc by simp
  qed
qed

lemma length_concat_uniform: "\<forall>r\<in>set rows. length r = w \<Longrightarrow> length (concat rows) = length rows * w"
  by (induction rows) simp_all

lemma bit_packbits_byte:
  "b < 8 \<Longrightarrow> bit (packbits_byte grid thresh n) b \<longleftrightarrow> thresh < grid ! (8 * n + b)"
  by (simp add: packbits_byte_def bit_horner_sum_bit_iff)

lemma even_cube_dvd8: "even (H::nat) \<Longrightarrow> 8 dvd H ^ 3"
proof -
  assume "even H"
  then obtain m where "H = 2 * m" by (auto elim: evenE)
  then have "H ^ 3 = 8 * m ^ 3" by (simp add: power_mult_distrib)
  then show ?thesis by simp
qed

lemma cell_index:
  fixes w c i :: nat
  assumes "8 dvd w"
  shows "8 * (c * (w div 8) + i div 8) + i mod 8 = c * w + i"
proof -
  obtain q where w: "w = 8 * q" using assms by (auto elim: dvdE)
  show ?thesis by (simp add: w algebra_simps)
qed

lemma byte_index:
  fixes w c i C :: nat
  assumes "8 dvd w" "c < C" "i < w"
  shows "c * (w div 8) + i div 8 < C * w div 8"
proof -
  obtain q where w: "w = 8 * q" using assms by (auto elim: dvdE)
  have "i div 8 < q" using assms(3) w by simp
  then have "c * q + i div 8 < Suc c * q" by simp
  also have "\<dots> \<le> C * q" using assms(2) by (simp add: Suc_leI mult_le_mono1 del: mult_Suc)
  finally show ?thesis by (simp add: w)
qed

text \<open>
  C7, as the specification words it: \<^verbatim>\<open>packbits\<close> returns a bitfield of length
  \<open>C * H\<^sup>3 / 8\<close>. The caller may hand in the bitfield: for a grid of one row of 8 cells
  and a bitfield of 2 bytes, the call packs the first byte and returns the 2 bytes.
\<close>

theorem packbits_length_counterexample:
  "packbits_forward packbits_kernel demo_bytes (Mat (2 ^ 3) [[1, 5, 1, 5, 1, 1, 1, 5 :: int]]) 3
      (Some [0, 255]) = Inr [138, 255]
   \<and> length [138, 255 :: 8 word] \<noteq> length [[1, 5, 1, 5, 1, 1, 1, 5 :: int]] * 2 ^ 3 div 8"
  by (simp add: packbits_forward_def packbits_kernel_def packbits_byte_def apply_stores_def
        upt_conv_Cons)

text \<open>
  C7, amended. For a grid of \<open>C\<close> rows of \<open>H\<^sup>3\<close> cells with \<open>H\<close> even, and a bitfield
  that is either left out or has at least \<open>C * H\<^sup>3 / 8\<close> bytes: \<^verbatim>\<open>packbits\<close> returns
  \<open>C * H\<^sup>3 / 8\<close> bytes when the bitfield is left out, and the caller's bitfield at its own
  length otherwise, with the bytes past the first \<open>C * H\<^sup>3 / 8\<close> unchanged. In both cases,
  for the cell \<open>i\<close> of row \<open>c\<close>, bit \<open>i mod 8\<close> of byte \<open>i div 8\<close> of that row's
  \<open>H\<^sup>3 / 8\<close> bytes is set iff the cell is above the threshold.
\<close>

theorem packbits_bits:
  assumes "\<forall>r\<in>set rows. length r = H ^ 3" and "even H"
      and "\<forall>b. bitfield = Some b \<longrightarrow> length rows * H ^ 3 div 8 \<le> length b"
  shows "\<exists>bf. packbits_forward packbits_kernel mem (Mat (H ^ 3) rows) thresh bitfield = Inr bf
            \<and> length bf = (case bitfield of None \<Rightarrow> length rows * H ^ 3 div 8 | Some b \<Rightarrow> length b)
            \<and> (\<forall>c < length rows. \<forall>i < H ^ 3.
                  bit (bf ! (c * (H ^ 3 div 8) + i div 8)) (i mod 8) \<longleftrightarrow> thresh < rows ! c ! i)
            \<and> (\<forall>b. bitfield = Some b \<longrightarrow>
                  drop (length rows * H ^ 3 div 8) bf = drop (length rows * H ^ 3 div 8) b)"
proof -
  define w where "w = H ^ 3"
  define N where "N = length rows * w div 8"
  define buf where "buf = (case bitfield of None \<Rightarrow> map mem [0..<N] | Some b \<Rightarrow> b)"
  define bf where "bf = map (packbits_byte (concat rows) thresh) [0..<N] @ drop N buf"
  have d8: "8 dvd w" unfolding w_def using assms(2) by (rule even_cube_dvd8)
  have nb: "N \<le> length buf"
    using assms(3) by (cases bitfield) (simp_all add: buf_def N_def w_def)
  have run: "packbits_forward packbits_kernel mem (Mat w rows) thresh bitfield = Inr bf"
    using apply_stores_tabulate [OF nb, of "packbits_byte (concat rows) thresh"]
    unfolding bf_def buf_def N_def
    by (simp add: packbits_forward_def packbits_kernel_def Let_def)
  have len: "length bf = (case bitfield of None \<Rightarrow> N | Some b \<Rightarrow> length b)"
    using nb by (cases bitfield) (simp_all add: bf_def buf_def)
  have bits: "bit (bf ! (c * (w div 8) + i div 8)) (i mod 8) \<longleftrightarrow> thresh < rows ! c ! i"
    if c: "c < length rows" and i: "i < w" for c i
  proof -
    have n: "c * (w div 8) + i div 8 < N"
      unfolding N_def by (rule byte_index [OF d8 c i])
    have "bit (bf ! (c * (w div 8) + i div 8)) (i mod 8)
          \<longleftrightarrow> thresh < concat rows ! (8 * (c * (w div 8) + i div 8) + i mod 8)"
      using n by (simp add: bf_def nth_append bit_packbits_byte)
    also have "8 * (c * (w div 8) + i div 8) + i mod 8 = c * w + i" by (rule cell_index [OF d8])
    also have "concat rows ! (c * w + i) = rows ! c ! i"
      using assms(1) c i unfolding w_def [symmetric] by (rule nth_concat_uniform)
    finally show ?thesis .
  qed
  have rest: "drop N bf = drop N b" if "bitfield = Some b" for b
    using that by (simp add: bf_def buf_def)
  show ?thesis
    unfolding w_def [symmetric] N_def [symmetric]
    by (rule exI [of _ bf]) (use run len bits rest in blast)
qed

theorem packbits_bits_witness:
  "packbits_forward packbits_kernel demo_bytes (Mat (2 ^ 3) [[1, 5, 1, 5, 1, 1, 1, 5 :: int]]) 3 None = Inr [138]
   \<and> packbits_forward packbits_kernel demo_bytes (Mat (2 ^ 3) [[1, 5, 1, 5, 1, 1, 1, 5 :: int]]) 3
        (Some [0, 255]) = Inr [138, 255]
   \<and> bit (138 :: 8 word) 3 \<and> \<not> bit (138 :: 8 word) 2"
proof -
  let ?rows = "[[1, 5, 1, 5, 1, 1, 1, 5 :: int]]"
  have h: "\<forall>r\<in>set ?rows. length r = 2 ^ 3" "even (2::nat)"
    by simp_all
  have h1: "\<forall>b. (None :: 8 word list option) = Some b \<longrightarrow> length ?rows * 2 ^ 3 div 8 \<le> length b"
    by simp
  have h2: "\<forall>b. Some [0, 255 :: 8 word] = Some b \<longrightarrow> length ?rows * 2 ^ 3 div 8 \<le> length b"
    by simp
  obtain bf where run: "packbits_forward packbits_kernel demo_bytes (Mat (2 ^ 3) ?rows) 3 None = Inr bf"
    and bits: "\<forall>c < length ?rows. \<forall>i < 2 ^ 3.
                  bit (bf ! (c * (2 ^ 3 div 8) + i div 8)) (i mod 8) \<longleftrightarrow> 3 < ?rows ! c ! i"
    using packbits_bits [OF h h1, of demo_bytes 3] by blast
  obtain bf' where run': "packbits_forward packbits_kernel demo_bytes (Mat (2 ^ 3) ?rows) 3 (Some [0, 255]) = Inr bf'"
    and len': "length bf' = (case Some [0, 255 :: 8 word] of None \<Rightarrow> length ?rows * 2 ^ 3 div 8 | Some b \<Rightarrow> length b)"
    and rest': "\<forall>b. Some [0, 255 :: 8 word] = Some b \<longrightarrow>
                  drop (length ?rows * 2 ^ 3 div 8) bf' = drop (length ?rows * 2 ^ 3 div 8) b"
    using packbits_bits [OF h h2, of demo_bytes 3] by blast
  have v: "packbits_forward packbits_kernel demo_bytes (Mat (2 ^ 3) ?rows) 3 None = Inr [138]"
    by (simp add: packbits_forward_def packbits_kernel_def packbits_byte_def apply_stores_def
          demo_bytes_def upt_conv_Cons)
  have v': "packbits_forward packbits_kernel demo_bytes (Mat (2 ^ 3) ?rows) 3 (Some [0, 255]) = Inr [138, 255]"
    by (simp add: packbits_forward_def packbits_kernel_def packbits_byte_def apply_stores_def
          upt_conv_Cons)
  have bf: "bf = [138]" using run v by simp
  have "bit (bf ! 0) 3" "\<not> bit (bf ! 0) 2"
    using bits [rule_format, of 0 3] bits [rule_format, of 0 2] by simp_all
  then show ?thesis using v v' bf by simp
qed

subsection \<open>Compaction of the alive rays\<close>





end
